theory Spec2Isabelle
  imports Complex_Main
begin

section \<open>Data model of a help request\<close>

text \<open>
  Object ids and user ids are opaque identifiers; dates are milliseconds since the epoch.
  The enumerations are the string enums of the schema (\<open>HELP_REQUEST_STATUS\<close>,
  the priority enum, \<open>HELP_CATEGORIES\<close>). The nested objects of the schema
  (\<open>pickupLocation\<close>, \<open>availabilityWindow\<close>, \<open>rating\<close>, \<open>metadata\<close>) are flattened
  into the record. Fields that no operation below reads are left out: images, time slots,
  the preferred contact method, the items' descriptions and the time at which a user
  marked interest. An absent optional field is \<open>None\<close>.
\<close>

type_synonym objectId = nat
type_synonym userId = nat
type_synonym date = int

datatype requestStatus = Open | Approved | Completed

datatype priorityLevel = Low | Medium | High | Critical

datatype helpCategory =
  Food | Clothing | Medical | Education | Household | Transportation | Other

record requestItem =
  itemId :: objectId
  quantity :: nat
  unit :: string
  urgency :: priorityLevel

record noteEntry =
  author :: userId
  content :: string

record ratingData =
  stars :: nat
  comment :: string
  ratedAt :: date

record flagInfo =
  isFlagged :: bool
  reason :: "string option"
  flaggedBy :: "userId option"
  flaggedAt :: "date option"

record helpRequest =
  rid :: objectId
  recipientId :: userId
  title :: string
  description :: string
  items :: "requestItem list"
  status :: requestStatus
  donorId :: "userId option"
  priority :: priorityLevel
  category :: helpCategory
  address :: string
  latitude :: real
  longitude :: real
  zipCode :: string
  startDate :: date
  endDate :: date
  approvedAt :: "date option"
  completedAt :: "date option"
  noteList :: "noteEntry list"
  recipientRating :: "ratingData option"
  donorRating :: "ratingData option"
  views :: nat
  interested :: "userId list"
  flagged :: flagInfo
  createdAt :: date
  updatedAt :: date

text \<open>The collection of help requests, in the store's natural order.\<close>

type_synonym store = "helpRequest list"

text \<open>A failed response: the HTTP status and the message of the JSON body.\<close>

datatype failure = Failure nat string

definition HELP_REQUEST_NOT_FOUND :: string where
  "HELP_REQUEST_NOT_FOUND = ''Help request not found.''"

definition ALREADY_APPROVED :: string where
  "ALREADY_APPROVED = ''Help request already approved.''"

definition CANNOT_APPROVE_OWN :: string where
  "CANNOT_APPROVE_OWN = ''You cannot approve your own help request.''"

definition SERVER_ERROR :: string where
  "SERVER_ERROR = ''Internal server error.''"

definition USER_NOT_FOUND :: string where
  "USER_NOT_FOUND = ''User not found.''"

section \<open>The request model: queries, save hook and instance methods\<close>

definition findById :: "store \<Rightarrow> objectId \<Rightarrow> helpRequest option" where
  "findById st i = find (\<lambda>r. rid r = i) st"

text \<open>
  \<open>save\<close> on a loaded document: the pre-save hook rejects a window whose start is not
  before its end (the controllers turn the thrown error into status 500). \<open>modified\<close>
  says whether an assignment since loading changed a path: if none did, nothing is
  written and \<open>updatedAt\<close> stays; otherwise the stored document with this id is replaced
  and \<open>updatedAt\<close> is bumped. The callers pass \<open>q \<noteq> r\<close> for the loaded document \<open>r\<close> and
  the assigned document \<open>q\<close>.
\<close>

definition save ::
  "date \<Rightarrow> bool \<Rightarrow> helpRequest \<Rightarrow> store \<Rightarrow> failure + helpRequest \<times> store" where
  "save now modified q st =
     (if startDate q \<ge> endDate q then Inl (Failure 500 SERVER_ERROR)
      else if \<not> modified then Inr (q, st)
      else (let r' = q\<lparr>updatedAt := now\<rparr>
            in Inr (r', map (\<lambda>x. if rid x = rid q then r' else x) st)))"

text \<open>\<open>save\<close> on a new document appends it to the collection.\<close>

definition saveNew :: "date \<Rightarrow> helpRequest \<Rightarrow> store \<Rightarrow> failure + helpRequest \<times> store" where
  "saveNew now r st =
     (if startDate r \<ge> endDate r then Inl (Failure 500 SERVER_ERROR)
      else (let r' = r\<lparr>createdAt := now, updatedAt := now\<rparr> in Inr (r', st @ [r'])))"

definition approve :: "userId \<Rightarrow> date \<Rightarrow> helpRequest \<Rightarrow> store \<Rightarrow> failure + helpRequest \<times> store" where
  "approve donor now r st =
     (let q = r\<lparr>status := Approved, donorId := Some donor, approvedAt := Some now\<rparr>
      in save now (q \<noteq> r) q st)"

definition complete :: "date \<Rightarrow> helpRequest \<Rightarrow> store \<Rightarrow> failure + helpRequest \<times> store" where
  "complete now r st =
     (let q = r\<lparr>status := Completed, completedAt := Some now\<rparr> in save now (q \<noteq> r) q st)"

definition addNoteMethod ::
  "userId \<Rightarrow> string \<Rightarrow> date \<Rightarrow> helpRequest \<Rightarrow> store \<Rightarrow> failure + helpRequest \<times> store" where
  "addNoteMethod authorId txt now r st =
     (let q = r\<lparr>noteList := noteList r @ [\<lparr>author = authorId, content = txt\<rparr>]\<rparr>
      in save now (q \<noteq> r) q st)"

definition incrementViews :: "date \<Rightarrow> helpRequest \<Rightarrow> store \<Rightarrow> failure + helpRequest \<times> store" where
  "incrementViews now r st =
     (let q = r\<lparr>views := views r + 1\<rparr> in save now (q \<noteq> r) q st)"

definition markInterested ::
  "userId \<Rightarrow> date \<Rightarrow> helpRequest \<Rightarrow> store \<Rightarrow> failure + helpRequest \<times> store" where
  "markInterested u now r st =
     (let alreadyInterested = (u \<in> set (interested r))
      in if \<not> alreadyInterested
         then (let q = r\<lparr>interested := interested r @ [u]\<rparr> in save now (q \<noteq> r) q st)
         else Inr (r, st))"

definition flag ::
  "string \<Rightarrow> userId \<Rightarrow> date \<Rightarrow> helpRequest \<Rightarrow> store \<Rightarrow> failure + helpRequest \<times> store" where
  "flag why u now r st =
     (let q = r\<lparr>flagged := \<lparr>isFlagged = True, reason = Some why, flaggedBy = Some u,
                                  flaggedAt = Some now\<rparr>\<rparr>
      in save now (q \<noteq> r) q st)"

section \<open>The access middleware\<close>

datatype accessAction = ViewAction | EditAction | ApproveAction | CompleteAction | UnknownAction

definition validateHelpRequestAccess ::
  "accessAction \<Rightarrow> userId \<Rightarrow> objectId \<Rightarrow> store \<Rightarrow> failure + helpRequest" where
  "validateHelpRequestAccess action u requestId st =
     (case findById st requestId of
        None \<Rightarrow> Inl (Failure 404 HELP_REQUEST_NOT_FOUND)
      | Some r \<Rightarrow>
          (let isOwner = (recipientId r = u);
               isDonor = (donorId r = Some u)
           in case action of
                ViewAction \<Rightarrow> Inr r
              | EditAction \<Rightarrow>
                  if \<not> isOwner then Inl (Failure 403 ''You can only edit your own help requests'')
                  else Inr r
              | ApproveAction \<Rightarrow>
                  if isOwner then Inl (Failure 403 CANNOT_APPROVE_OWN)
                  else if status r \<noteq> Open then Inl (Failure 400 ALREADY_APPROVED)
                  else Inr r
              | CompleteAction \<Rightarrow>
                  if \<not> isDonor \<and> \<not> isOwner
                  then Inl (Failure 403
                    ''Only the recipient or donor can mark this request as complete'')
                  else Inr r
              | UnknownAction \<Rightarrow> Inl (Failure 400 ''Invalid action'')))"

section \<open>Lifecycle routes of the help controller\<close>

text \<open>
  Each route is modelled from the access middleware on (the caller is authenticated). A
  result is the failed response or the returned request with the new state of the
  collection. The length and range checks on note, rating and flag bodies are not
  modelled.

  \<open>POST /requests/:requestId/approve\<close>: the access middleware, then the controller.
\<close>

definition approveHelpRequest ::
  "userId \<Rightarrow> objectId \<Rightarrow> date \<Rightarrow> store \<Rightarrow> failure + helpRequest \<times> store" where
  "approveHelpRequest u requestId now st =
     (case validateHelpRequestAccess ApproveAction u requestId st of
        Inl e \<Rightarrow> Inl e
      | Inr r \<Rightarrow> approve u now r st)"

text \<open>\<open>POST /requests/:requestId/complete\<close>.\<close>

definition completeHelpRequest ::
  "userId \<Rightarrow> objectId \<Rightarrow> date \<Rightarrow> store \<Rightarrow> failure + helpRequest \<times> store" where
  "completeHelpRequest u requestId now st =
     (case validateHelpRequestAccess CompleteAction u requestId st of
        Inl e \<Rightarrow> Inl e
      | Inr r \<Rightarrow>
          if status r \<noteq> Approved
          then Inl (Failure 400 ''Only approved help requests can be completed'')
          else complete now r st)"

text \<open>\<open>DELETE /requests/:requestId\<close>: guarded by the access middleware for "edit".\<close>

definition deleteHelpRequest :: "userId \<Rightarrow> objectId \<Rightarrow> store \<Rightarrow> failure + store" where
  "deleteHelpRequest u requestId st =
     (case validateHelpRequestAccess EditAction u requestId st of
        Inl e \<Rightarrow> Inl e
      | Inr r \<Rightarrow>
          if status r = Approved
          then Inl (Failure 400
            ''Cannot delete approved help requests. Contact admin if needed.'')
          else Inr (filter (\<lambda>x. rid x \<noteq> requestId) st))"

text \<open>\<open>POST /requests/:requestId/notes\<close>.\<close>

definition addNote ::
  "userId \<Rightarrow> objectId \<Rightarrow> string \<Rightarrow> date \<Rightarrow> store \<Rightarrow> failure + helpRequest \<times> store" where
  "addNote u requestId txt now st =
     (case findById st requestId of
        None \<Rightarrow> Inl (Failure 404 HELP_REQUEST_NOT_FOUND)
      | Some r \<Rightarrow>
          (let isRecipient = (recipientId r = u);
               isDonor = (donorId r = Some u)
           in if \<not> isRecipient \<and> \<not> isDonor
              then Inl (Failure 403 ''Only recipient and donor can add notes'')
              else addNoteMethod u txt now r st))"

text \<open>\<open>POST /requests/:requestId/interest\<close>.\<close>

definition markInterest ::
  "userId \<Rightarrow> objectId \<Rightarrow> date \<Rightarrow> store \<Rightarrow> failure + helpRequest \<times> store" where
  "markInterest u requestId now st =
     (case findById st requestId of
        None \<Rightarrow> Inl (Failure 404 HELP_REQUEST_NOT_FOUND)
      | Some r \<Rightarrow>
          if recipientId r = u
          then Inl (Failure 400 ''You cannot mark interest in your own help request'')
          else markInterested u now r st)"

text \<open>\<open>POST /requests/:requestId/rate\<close>.\<close>

definition rateHelpRequest ::
  "userId \<Rightarrow> objectId \<Rightarrow> nat \<Rightarrow> string \<Rightarrow> date \<Rightarrow> store \<Rightarrow> failure + helpRequest \<times> store" where
  "rateHelpRequest u requestId starCount cmt now st =
     (case findById st requestId of
        None \<Rightarrow> Inl (Failure 404 HELP_REQUEST_NOT_FOUND)
      | Some r \<Rightarrow>
          if status r \<noteq> Completed
          then Inl (Failure 400 ''Can only rate completed help requests'')
          else
            (let isRecipient = (recipientId r = u);
                 isDonor = (donorId r = Some u)
             in if \<not> isRecipient \<and> \<not> isDonor
                then Inl (Failure 403 ''Only recipient and donor can rate this request'')
                else
                  (let ratingData = \<lparr>stars = starCount, comment = cmt, ratedAt = now\<rparr>;
                       q = (if isRecipient then r\<lparr>recipientRating := Some ratingData\<rparr>
                            else r\<lparr>donorRating := Some ratingData\<rparr>)
                   in save now (q \<noteq> r) q st)))"

text \<open>\<open>POST /requests/:requestId/flag\<close>.\<close>

definition flagHelpRequest ::
  "userId \<Rightarrow> objectId \<Rightarrow> string \<Rightarrow> date \<Rightarrow> store \<Rightarrow> failure + helpRequest \<times> store" where
  "flagHelpRequest u requestId why now st =
     (case findById st requestId of
        None \<Rightarrow> Inl (Failure 404 HELP_REQUEST_NOT_FOUND)
      | Some r \<Rightarrow> flag why u now r st)"

section \<open>Category inference\<close>

text \<open>
  The catalog of help items. \<open>HelpItem.find({_id: {$in: itemIds}, isActive: true})\<close>
  returns the active catalog items whose id is among \<open>itemIds\<close>, in catalog order.
\<close>

record helpItem =
  hid :: objectId
  itemCategory :: helpCategory
  isActive :: bool

type_synonym catalog = "helpItem list"

definition findValidItems :: "catalog \<Rightarrow> objectId list \<Rightarrow> helpItem list" where
  "findValidItems cat itemIds = filter (\<lambda>i. hid i \<in> set itemIds \<and> isActive i) cat"

text \<open>
  \<open>acc[item.category] = (acc[item.category] || 0) + 1\<close> on an object whose keys are
  category names: the object is an association list in insertion order (no category name
  is an integer index, so \<open>Object.keys\<close> lists the keys in insertion order).
\<close>

fun bumpCount :: "helpCategory \<Rightarrow> (helpCategory \<times> nat) list \<Rightarrow> (helpCategory \<times> nat) list" where
  "bumpCount c [] = [(c, 1)]"
| "bumpCount c ((k, n) # kvs) = (if k = c then (k, n + 1) # kvs else (k, n) # bumpCount c kvs)"

definition categoryCounts :: "helpCategory list \<Rightarrow> (helpCategory \<times> nat) list" where
  "categoryCounts cats = foldl (\<lambda>acc c. bumpCount c acc) [] cats"

definition countOf :: "(helpCategory \<times> nat) list \<Rightarrow> helpCategory \<Rightarrow> nat" where
  "countOf counts k = (case map_of counts k of Some n \<Rightarrow> n | None \<Rightarrow> 0)"

text \<open>
  \<open>Object.keys(categoryCounts).reduce((a, b) => categoryCounts[a] > categoryCounts[b] ? a : b)\<close>;
  \<open>reduce\<close> without a start element throws on an empty array.
\<close>

definition pickCategory :: "(helpCategory \<times> nat) list \<Rightarrow> helpCategory option" where
  "pickCategory counts =
     (case map fst counts of
        [] \<Rightarrow> None
      | k # ks \<Rightarrow> Some (foldl (\<lambda>a b. if countOf counts a > countOf counts b then a else b) k ks))"

definition inferCategory :: "helpCategory list \<Rightarrow> helpCategory option" where
  "inferCategory cats = pickCategory (categoryCounts cats)"


section \<open>Creating and updating a request\<close>

record userProfile =
  userAddress :: string
  userZipCode :: string
  userLatitude :: real
  userLongitude :: real

text \<open>
  The request bodies after the validation middleware (unknown keys are stripped, so a
  body carries no status, donor or timestamps). Of the schema's checks the ones on the
  fields modelled here are kept.
\<close>

record createBody =
  newTitle :: string
  newDescription :: string
  newItems :: "requestItem list"
  newPriority :: priorityLevel
  newStartDate :: date
  newEndDate :: date

record updateBody =
  updTitle :: "string option"
  updDescription :: "string option"
  updItems :: "requestItem list option"
  updPriority :: "priorityLevel option"
  updWindow :: "(date \<times> date) option"

definition validItemsBody :: "requestItem list \<Rightarrow> bool" where
  "validItemsBody its = (its \<noteq> [] \<and> (\<forall>i \<in> set its. 1 \<le> quantity i \<and> unit i \<noteq> []))"

definition validCreateBody :: "date \<Rightarrow> createBody \<Rightarrow> bool" where
  "validCreateBody now b =
     (10 \<le> length (newTitle b) \<and> length (newTitle b) \<le> 100 \<and>
      20 \<le> length (newDescription b) \<and> length (newDescription b) \<le> 500 \<and>
      validItemsBody (newItems b) \<and>
      now \<le> newStartDate b \<and> newStartDate b < newEndDate b)"

definition validUpdateBody :: "date \<Rightarrow> updateBody \<Rightarrow> bool" where
  "validUpdateBody now b =
     ((case updTitle b of None \<Rightarrow> True | Some t \<Rightarrow> 10 \<le> length t \<and> length t \<le> 100) \<and>
      (case updDescription b of None \<Rightarrow> True | Some d \<Rightarrow> 20 \<le> length d \<and> length d \<le> 500) \<and>
      (case updItems b of None \<Rightarrow> True | Some its \<Rightarrow> validItemsBody its) \<and>
      (case updWindow b of None \<Rightarrow> True | Some (s, e) \<Rightarrow> now \<le> s \<and> s < e))"

text \<open>\<open>POST /requests\<close>. The new document's id is supplied by the driver.\<close>

definition createHelpRequest ::
  "(userId \<Rightarrow> userProfile option) \<Rightarrow> catalog \<Rightarrow> userId \<Rightarrow> objectId \<Rightarrow> createBody \<Rightarrow> date \<Rightarrow>
   store \<Rightarrow> failure + helpRequest \<times> store" where
  "createHelpRequest users cat u newId b now st =
     (if \<not> validCreateBody now b then Inl (Failure 400 ''Validation Error'')
      else case users u of
        None \<Rightarrow> Inl (Failure 404 USER_NOT_FOUND)
      | Some user \<Rightarrow>
          (let itemIds = map itemId (newItems b);
               validItems = findValidItems cat itemIds
           in if length validItems \<noteq> length itemIds
              then Inl (Failure 400 ''One or more help items are not available'')
              else case inferCategory (map itemCategory validItems) of
                None \<Rightarrow> Inl (Failure 500 SERVER_ERROR)
              | Some c \<Rightarrow>
                  saveNew now
                    \<lparr>rid = newId, recipientId = u, title = newTitle b,
                     description = newDescription b, items = newItems b, status = Open,
                     donorId = None, priority = newPriority b, category = c,
                     address = userAddress user, latitude = userLatitude user,
                     longitude = userLongitude user, zipCode = userZipCode user,
                     startDate = newStartDate b, endDate = newEndDate b,
                     approvedAt = None, completedAt = None, noteList = [],
                     recipientRating = None, donorRating = None, views = 0,
                     interested = [],
                     flagged = \<lparr>isFlagged = False, reason = None, flaggedBy = None,
                                flaggedAt = None\<rparr>,
                     createdAt = now, updatedAt = now\<rparr> st))"

text \<open>\<open>Object.assign(helpRequest, updates)\<close>, with the category recomputed from the items.\<close>

definition assignUpdates :: "helpRequest \<Rightarrow> updateBody \<Rightarrow> helpCategory option \<Rightarrow> helpRequest" where
  "assignUpdates r b c =
     r\<lparr>title := (case updTitle b of None \<Rightarrow> title r | Some t \<Rightarrow> t),
       description := (case updDescription b of None \<Rightarrow> description r | Some d \<Rightarrow> d),
       items := (case updItems b of None \<Rightarrow> items r | Some its \<Rightarrow> its),
       priority := (case updPriority b of None \<Rightarrow> priority r | Some p \<Rightarrow> p),
       category := (case c of None \<Rightarrow> category r | Some k \<Rightarrow> k),
       startDate := (case updWindow b of None \<Rightarrow> startDate r | Some (s, e) \<Rightarrow> s),
       endDate := (case updWindow b of None \<Rightarrow> endDate r | Some (s, e) \<Rightarrow> e)\<rparr>"

text \<open>
  \<open>PUT /requests/:requestId\<close>: the access middleware for "edit", the body validation,
  then the controller. Assigning an items array always counts as a modification (the
  new subdocuments get fresh ids).
\<close>

definition updateHelpRequest ::
  "catalog \<Rightarrow> userId \<Rightarrow> objectId \<Rightarrow> updateBody \<Rightarrow> date \<Rightarrow> store \<Rightarrow>
   failure + helpRequest \<times> store" where
  "updateHelpRequest cat u requestId b now st =
     (case validateHelpRequestAccess EditAction u requestId st of
        Inl e \<Rightarrow> Inl e
      | Inr r \<Rightarrow>
          if \<not> validUpdateBody now b then Inl (Failure 400 ''Validation Error'')
          else case updItems b of
            None \<Rightarrow> (let q = assignUpdates r b None in save now (q \<noteq> r) q st)
          | Some its \<Rightarrow>
              (let itemIds = map itemId its;
                   validItems = findValidItems cat itemIds
               in if length validItems \<noteq> length itemIds
                  then Inl (Failure 400 ''One or more help items are not available'')
                  else case inferCategory (map itemCategory validItems) of
                    None \<Rightarrow> Inl (Failure 500 SERVER_ERROR)
                  | Some c \<Rightarrow> save now True (assignUpdates r b (Some c)) st))"

section \<open>The lifecycle as a transition system\<close>

text \<open>The operations exposed on help requests, with the acting user.\<close>

datatype event =
  CreateEvent userId objectId createBody
| EditEvent userId objectId updateBody
| ApproveEvent userId objectId
| CompleteEvent userId objectId
| DeleteEvent userId objectId
| AddNoteEvent userId objectId string
| InterestEvent userId objectId
| RateEvent userId objectId nat string
| FlagEvent userId objectId string

fun perform ::
  "(userId \<Rightarrow> userProfile option) \<Rightarrow> catalog \<Rightarrow> event \<Rightarrow> date \<Rightarrow> store \<Rightarrow> failure + store" where
  "perform users cat (CreateEvent u i b) now st = map_sum id snd (createHelpRequest users cat u i b now st)"
| "perform users cat (EditEvent u i b) now st = map_sum id snd (updateHelpRequest cat u i b now st)"
| "perform users cat (ApproveEvent u i) now st = map_sum id snd (approveHelpRequest u i now st)"
| "perform users cat (CompleteEvent u i) now st = map_sum id snd (completeHelpRequest u i now st)"
| "perform users cat (DeleteEvent u i) now st = deleteHelpRequest u i st"
| "perform users cat (AddNoteEvent u i txt) now st = map_sum id snd (addNote u i txt now st)"
| "perform users cat (InterestEvent u i) now st = map_sum id snd (markInterest u i now st)"
| "perform users cat (RateEvent u i n cmt) now st = map_sum id snd (rateHelpRequest u i n cmt now st)"
| "perform users cat (FlagEvent u i why) now st = map_sum id snd (flagHelpRequest u i why now st)"

text \<open>
  The states the store can reach from the empty collection: each successful operation
  runs at a time read from the clock, and the clock does not run backwards.
\<close>

inductive reachable :: "date \<Rightarrow> store \<Rightarrow> bool" where
  initial: "reachable t []"
| step: "reachable t st \<Longrightarrow> t \<le> t' \<Longrightarrow> perform users cat ev t' st = Inr st' \<Longrightarrow> reachable t' st'"

text \<open>The state-machine safety condition on one request.\<close>

definition stateMachineSafe :: "helpRequest \<Rightarrow> bool" where
  "stateMachineSafe r =
     ((status r = Open \<longrightarrow> donorId r = None) \<and>
      (status r = Approved \<or> status r = Completed \<longrightarrow>
         donorId r \<noteq> None \<and> approvedAt r \<noteq> None) \<and>
      (status r = Completed \<longrightarrow>
         completedAt r \<noteq> None \<and> the (approvedAt r) \<le> the (completedAt r)))"

text \<open>The safety condition together with: no approval lies in the future of the clock.\<close>

definition safeAt :: "date \<Rightarrow> helpRequest \<Rightarrow> bool" where
  "safeAt t r = (stateMachineSafe r \<and> (approvedAt r \<noteq> None \<longrightarrow> the (approvedAt r) \<le> t))"

section \<open>Distances\<close>

text \<open>
  Distances. Numbers are modelled as real numbers (the source computes with IEEE doubles;
  rounding errors of the floating-point operations are not modelled).
  \<open>atan2\<close> is \<open>Math.atan2(y, x)\<close>; \<open>toFixed2\<close> is \<open>parseFloat(x.toFixed(2))\<close>.
\<close>

definition atan2 :: "real \<Rightarrow> real \<Rightarrow> real" where
  "atan2 y x =
     (if x > 0 then arctan (y / x)
      else if x < 0 then (if y \<ge> 0 then arctan (y / x) + pi else arctan (y / x) - pi)
      else if y > 0 then pi / 2 else if y < 0 then - (pi / 2) else 0)"

definition toFixed2 :: "real \<Rightarrow> real" where
  "toFixed2 x =
     (if x < 0 then - (real_of_int (round (- x * 100)) / 100)
      else real_of_int (round (x * 100)) / 100)"

text \<open>The local \<open>c\<close> of \<open>calculateDistance\<close>: the central angle by the Haversine formula.\<close>

definition centralAngle :: "real \<Rightarrow> real \<Rightarrow> real \<Rightarrow> real \<Rightarrow> real" where
  "centralAngle lat1 lon1 lat2 lon2 =
     (let dLat = ((lat2 - lat1) * pi) / 180;
          dLon = ((lon2 - lon1) * pi) / 180;
          a = sin (dLat / 2) * sin (dLat / 2) +
              cos ((lat1 * pi) / 180) * cos ((lat2 * pi) / 180) * sin (dLon / 2) * sin (dLon / 2)
      in 2 * atan2 (sqrt a) (sqrt (1 - a)))"

definition calculateDistance :: "real \<Rightarrow> real \<Rightarrow> real \<Rightarrow> real \<Rightarrow> real" where
  "calculateDistance lat1 lon1 lat2 lon2 = toFixed2 (6371 * centralAngle lat1 lon1 lat2 lon2)"

section \<open>The store queries of the listing\<close>

text \<open>
  The document store's own operators are parameters of the listing: the spherical cap
  test \<open>$geoWithin / $centerSphere\<close> (centre longitude, centre latitude, radius in radians,
  then the document's latitude and longitude) and the case-insensitive \<open>$regex\<close> match
  (pattern, text).
\<close>

record storeEngine =
  centerSphere :: "real \<Rightarrow> real \<Rightarrow> real \<Rightarrow> real \<Rightarrow> real \<Rightarrow> bool"
  regexMatch :: "string \<Rightarrow> string \<Rightarrow> bool"

text \<open>
  The validated query string of \<open>GET /requests\<close>. Page and limit are taken to be whole
  numbers. \<open>validListQuery\<close> is the check of the validation middleware.
\<close>

record listQuery =
  page :: nat
  limit :: nat
  filterStatus :: "requestStatus option"
  filterCategory :: "helpCategory option"
  filterPriority :: "priorityLevel option"
  filterZipCode :: "string option"
  radius :: real
  queryLatitude :: "real option"
  queryLongitude :: "real option"
  search :: "string option"

definition validListQuery :: "listQuery \<Rightarrow> bool" where
  "validListQuery q =
     (1 \<le> page q \<and> 1 \<le> limit q \<and> limit q \<le> 100 \<and> 1 \<le> radius q \<and> radius q \<le> 100 \<and>
      (case queryLatitude q of None \<Rightarrow> True | Some la \<Rightarrow> - 90 \<le> la \<and> la \<le> 90) \<and>
      (case queryLongitude q of None \<Rightarrow> True | Some lo \<Rightarrow> - 180 \<le> lo \<and> lo \<le> 180) \<and>
      (case search q of None \<Rightarrow> True | Some s \<Rightarrow> 2 \<le> length s \<and> length s \<le> 100) \<and>
      (case filterZipCode q of None \<Rightarrow> True | Some z \<Rightarrow> 3 \<le> length z \<and> length z \<le> 10))"

text \<open>The filter object handed to \<open>HelpRequest.find\<close> and \<open>countDocuments\<close>.\<close>

datatype locationCriterion = NoLocation | GeoWithin real real real | ZipRegex string

record findQuery =
  notRecipient :: "userId option"
  withStatus :: "requestStatus option"
  withCategory :: "helpCategory option"
  withPriority :: "priorityLevel option"
  withLocation :: locationCriterion
  withSearch :: "string option"
  endDateAfter :: date

definition matches :: "storeEngine \<Rightarrow> findQuery \<Rightarrow> helpRequest \<Rightarrow> bool" where
  "matches E fq r =
     ((case notRecipient fq of None \<Rightarrow> True | Some u \<Rightarrow> recipientId r \<noteq> u) \<and>
      (case withStatus fq of None \<Rightarrow> True | Some s \<Rightarrow> status r = s) \<and>
      (case withCategory fq of None \<Rightarrow> True | Some c \<Rightarrow> category r = c) \<and>
      (case withPriority fq of None \<Rightarrow> True | Some p \<Rightarrow> priority r = p) \<and>
      (case withLocation fq of
         NoLocation \<Rightarrow> True
       | GeoWithin lon lat rad \<Rightarrow> centerSphere E lon lat rad (latitude r) (longitude r)
       | ZipRegex z \<Rightarrow> regexMatch E z (zipCode r)) \<and>
      (case withSearch fq of
         None \<Rightarrow> True
       | Some s \<Rightarrow> regexMatch E s (title r) \<or> regexMatch E s (description r)) \<and>
      endDate r > endDateAfter fq)"

text \<open>
  \<open>sort({priority: -1, createdAt: -1})\<close>. The priority is stored as a string, so the
  store orders it as a string: critical < high < low < medium; \<open>priorityRank\<close> is the
  position in that order. Sorting is an insertion sort that keeps the earlier of two
  equal documents first; \<open>Array.prototype.sort\<close> is stable in the same way.
\<close>

fun priorityRank :: "priorityLevel \<Rightarrow> nat" where
  "priorityRank Critical = 0"
| "priorityRank High = 1"
| "priorityRank Low = 2"
| "priorityRank Medium = 3"

definition storeOrder :: "helpRequest \<Rightarrow> helpRequest \<Rightarrow> bool" where
  "storeOrder a b =
     (priorityRank (priority a) > priorityRank (priority b) \<or>
      (priorityRank (priority a) = priorityRank (priority b) \<and> createdAt a \<ge> createdAt b))"

fun insertBy :: "('a \<Rightarrow> 'a \<Rightarrow> bool) \<Rightarrow> 'a \<Rightarrow> 'a list \<Rightarrow> 'a list" where
  "insertBy le x [] = [x]"
| "insertBy le x (y # ys) = (if le x y then x # y # ys else y # insertBy le x ys)"

definition sortBy :: "('a \<Rightarrow> 'a \<Rightarrow> bool) \<Rightarrow> 'a list \<Rightarrow> 'a list" where
  "sortBy le xs = foldr (insertBy le) xs []"

definition findRequests :: "storeEngine \<Rightarrow> findQuery \<Rightarrow> nat \<Rightarrow> nat \<Rightarrow> store \<Rightarrow> helpRequest list" where
  "findRequests E fq perPage skip st = take perPage (drop skip (sortBy storeOrder (filter (matches E fq) st)))"

definition countDocuments :: "storeEngine \<Rightarrow> findQuery \<Rightarrow> store \<Rightarrow> nat" where
  "countDocuments E fq st = length (filter (matches E fq) st)"

section \<open>Pagination and the nearby listing\<close>

text \<open>\<open>getPaginationInfo\<close>; \<open>ceilDiv\<close> is \<open>Math.ceil(total / limit)\<close> for a positive limit.\<close>

definition ceilDiv :: "nat \<Rightarrow> nat \<Rightarrow> nat" where
  "ceilDiv totalCount perPage = (totalCount + perPage - 1) div perPage"

record paginationInfo =
  currentPage :: nat
  totalPages :: nat
  totalItems :: nat
  itemsPerPage :: nat
  hasNext :: bool
  hasPrev :: bool
  nextPage :: "nat option"
  prevPage :: "nat option"

definition getPaginationInfo :: "nat \<Rightarrow> nat \<Rightarrow> nat \<Rightarrow> paginationInfo" where
  "getPaginationInfo pg perPage totalCount =
     (let pages = ceilDiv totalCount perPage; hasN = (pg < pages); hasP = (pg > 1)
      in \<lparr>currentPage = pg, totalPages = pages, totalItems = totalCount, itemsPerPage = perPage,
          hasNext = hasN, hasPrev = hasP,
          nextPage = (if hasN then Some (pg + 1) else None),
          prevPage = (if hasP then Some (pg - 1) else None)\<rparr>)"

text \<open>An item of the listing: the request with its distance fields.\<close>

record listedRequest =
  request :: helpRequest
  distance :: "real option"
  distanceSource :: string

record listing =
  requests :: "listedRequest list"
  pagination :: paginationInfo
  strictRadiusFilter :: bool

text \<open>
  A number read from the query string is \<open>None\<close> when absent (\<open>parseFloat\<close> gives NaN);
  \<open>truthy\<close> is how the source's conditions read it: true unless NaN or zero.
\<close>

definition truthy :: "real option \<Rightarrow> bool" where
  "truthy x = (case x of None \<Rightarrow> False | Some v \<Rightarrow> v \<noteq> 0)"

text \<open>
  The origin of the listing: the query's coordinates when both are usable, otherwise the
  caller's profile coordinates; the flag is \<open>hasUserLocation\<close>.
\<close>

definition resolveLocation ::
  "(userId \<Rightarrow> userProfile option) \<Rightarrow> userId option \<Rightarrow> listQuery \<Rightarrow> real option \<times> real option \<times> bool" where
  "resolveLocation users caller q =
     (if \<not> truthy (queryLatitude q) \<or> \<not> truthy (queryLongitude q)
      then (case caller of
              None \<Rightarrow> (queryLatitude q, queryLongitude q, False)
            | Some u \<Rightarrow>
                (case users u of
                   None \<Rightarrow> (queryLatitude q, queryLongitude q, False)
                 | Some currentUser \<Rightarrow>
                     (Some (userLatitude currentUser), Some (userLongitude currentUser), True)))
      else (queryLatitude q, queryLongitude q, True))"

definition distanceKey :: "listedRequest \<Rightarrow> real" where
  "distanceKey x = (case distance x of None \<Rightarrow> 0 | Some d \<Rightarrow> d)"

definition byDistance :: "listedRequest \<Rightarrow> listedRequest \<Rightarrow> bool" where
  "byDistance a b = (distanceKey a \<le> distanceKey b)"

definition baseQuery :: "userId option \<Rightarrow> listQuery \<Rightarrow> locationCriterion \<Rightarrow> date \<Rightarrow> findQuery" where
  "baseQuery caller q loc now =
     \<lparr>notRecipient = caller, withStatus = filterStatus q, withCategory = filterCategory q,
      withPriority = filterPriority q, withLocation = loc, withSearch = search q,
      endDateAfter = now\<rparr>"

text \<open>\<open>HelpController.getHelpRequests\<close>, the listing with the \<open>hasUserLocation\<close> flag.\<close>

definition getHelpRequests ::
  "storeEngine \<Rightarrow> (userId \<Rightarrow> userProfile option) \<Rightarrow> userId option \<Rightarrow> listQuery \<Rightarrow> date \<Rightarrow>
   store \<Rightarrow> listing" where
  "getHelpRequests E users caller q now st =
     (let skip = (page q - 1) * limit q;
          (userLat, userLon, hasUserLocation) = resolveLocation users caller q;
          located = (hasUserLocation \<and> truthy userLat \<and> truthy userLon);
          loc = (if radius q \<noteq> 5
                 then (if located then GeoWithin (the userLon) (the userLat) (radius q / 6371)
                       else (case filterZipCode q of None \<Rightarrow> NoLocation | Some z \<Rightarrow> ZipRegex z))
                 else NoLocation);
          fq = baseQuery caller q loc now;
          found = findRequests E fq (limit q) skip st;
          requestsWithExtras =
            map (\<lambda>r. if located
                      then \<lparr>request = r,
                            distance = Some (calculateDistance (the userLat) (the userLon)
                                               (latitude r) (longitude r)),
                            distanceSource =
                              (if truthy (queryLatitude q) \<and> truthy (queryLongitude q)
                               then ''query_parameters'' else ''user_profile'')\<rparr>
                      else \<lparr>request = r, distance = None, distanceSource = ''not_available''\<rparr>)
                found;
          strict = (located \<and> radius q \<noteq> 0 \<and> radius q \<noteq> 5);
          filtered = (if strict
                      then filter (\<lambda>x. distanceKey x \<le> radius q) requestsWithExtras
                      else requestsWithExtras);
          ranked = (if hasUserLocation then sortBy byDistance filtered else filtered)
      in if strict
         then (let totalCount = length ranked;
                   actualPage = min (page q)
                                    (if ceilDiv totalCount (limit q) = 0 then 1
                                     else ceilDiv totalCount (limit q));
                   actualSkip = (actualPage - 1) * limit q
               in \<lparr>requests = take (limit q) (drop actualSkip ranked),
                   pagination = getPaginationInfo actualPage (limit q) totalCount,
                   strictRadiusFilter = True\<rparr>)
         else \<lparr>requests = ranked,
               pagination = getPaginationInfo (page q) (limit q) (countDocuments E fq st),
               strictRadiusFilter = False\<rparr>)"


section \<open>Example data\<close>

definition exampleRequest :: helpRequest where
  "exampleRequest =
     \<lparr>rid = 1, recipientId = 1, title = ''Need rice and lentils'',
      description = ''Family of four needs staples'',
      items = [\<lparr>itemId = 1, quantity = 3, unit = ''kg'', urgency = Medium\<rparr>],
      status = Open, donorId = None, priority = Medium, category = Food,
      address = ''1 Main St'', latitude = 40, longitude = -74, zipCode = ''10001'',
      startDate = 0, endDate = 1000, approvedAt = None, completedAt = None, noteList = [],
      recipientRating = None, donorRating = None, views = 0, interested = [],
      flagged = \<lparr>isFlagged = False, reason = None, flaggedBy = None, flaggedAt = None\<rparr>,
      createdAt = 0, updatedAt = 0\<rparr>"

definition approvedRequest :: helpRequest where
  "approvedRequest = exampleRequest\<lparr>status := Approved, donorId := Some 2, approvedAt := Some 5\<rparr>"

definition completedRequest :: helpRequest where
  "completedRequest = approvedRequest\<lparr>status := Completed, completedAt := Some 9\<rparr>"

definition emptyUpdate :: updateBody where
  "emptyUpdate = \<lparr>updTitle = None, updDescription = None, updItems = None,
                  updPriority = None, updWindow = None\<rparr>"

definition retitle :: updateBody where
  "retitle = emptyUpdate\<lparr>updTitle := Some ''Need rice, lentils and oil''\<rparr>"

definition exampleUsers :: "userId \<Rightarrow> userProfile option" where
  "exampleUsers u =
     (if u = 1 then Some \<lparr>userAddress = ''1 Main St'', userZipCode = ''10001'',
                             userLatitude = 40, userLongitude = -74\<rparr>
      else if u = 2 then Some \<lparr>userAddress = ''2 Side St'', userZipCode = ''10002'',
                                  userLatitude = 40.05, userLongitude = -74\<rparr>
      else None)"

definition exampleCatalog :: catalog where
  "exampleCatalog = [\<lparr>hid = 1, itemCategory = Food, isActive = True\<rparr>]"

definition exampleBody :: createBody where
  "exampleBody =
     \<lparr>newTitle = ''Need rice and lentils'', newDescription = ''Family of four needs staples'',
      newItems = [\<lparr>itemId = 1, quantity = 3, unit = ''kg'', urgency = Medium\<rparr>],
      newPriority = Medium, newStartDate = 0, newEndDate = 1000\<rparr>"

text \<open>
  An engine for the examples: the cap test compares the exact central angle with the
  radius, the pattern match is literal equality.
\<close>

definition exampleEngine :: storeEngine where
  "exampleEngine =
     \<lparr>centerSphere = (\<lambda>lon lat rad docLat docLon. centralAngle lat lon docLat docLon \<le> rad),
      regexMatch = (\<lambda>pat s. pat = s)\<rparr>"

definition query10 :: listQuery where
  "query10 = \<lparr>page = 1, limit = 20, filterStatus = None, filterCategory = None,
               filterPriority = None, filterZipCode = None, radius = 10,
               queryLatitude = None, queryLongitude = None, search = None\<rparr>"

definition query5 :: listQuery where
  "query5 = query10\<lparr>radius := 5\<rparr>"

definition threeRequests :: store where
  "threeRequests = [exampleRequest, exampleRequest\<lparr>rid := 2\<rparr>, exampleRequest\<lparr>rid := 3\<rparr>]"

definition pagedQuery :: "nat \<Rightarrow> listQuery" where
  "pagedQuery n = query10\<lparr>page := n, limit := 2, queryLatitude := Some 40,
                         queryLongitude := Some (- 74)\<rparr>"



section \<open>Facts about the store\<close>

lemma findById_rid: "findById st i = Some r \<Longrightarrow> rid r = i"
  by (auto simp: findById_def find_Some_iff)

lemma findById_replace:
  "findById st i = Some r0 \<Longrightarrow> rid r' = i \<Longrightarrow>
   findById (map (\<lambda>x. if rid x = i then r' else x) st) i = Some r'"
  by (induction st) (auto simp: findById_def)

lemma findById_replace_other:
  "j \<noteq> i \<Longrightarrow> rid r' = i \<Longrightarrow>
   findById (map (\<lambda>x. if rid x = i then r' else x) st) j = findById st j"
  by (induction st) (auto simp: findById_def)

lemma save_Inr:
  "save now True r st = Inr (r', st') \<longleftrightarrow>
   (startDate r < endDate r \<and> r' = r\<lparr>updatedAt := now\<rparr> \<and>
    st' = map (\<lambda>x. if rid x = rid r then r\<lparr>updatedAt := now\<rparr> else x) st)"
  by (auto simp: save_def Let_def)

lemma save_unmodified_Inr:
  "save now False r st = Inr (r', st') \<longleftrightarrow> (startDate r < endDate r \<and> r' = r \<and> st' = st)"
  by (auto simp: save_def)

lemma save_Inl:
  "save now m r st = Inl e \<longleftrightarrow> (endDate r \<le> startDate r \<and> e = Failure 500 SERVER_ERROR)"
  by (auto simp: save_def Let_def)

lemma approved_differs:
  "status r \<noteq> Approved \<Longrightarrow> r\<lparr>status := Approved, donorId := d, approvedAt := a\<rparr> \<noteq> r"
  by (auto dest: arg_cong [where f = status])

lemma completed_differs:
  "status r \<noteq> Completed \<Longrightarrow> r\<lparr>status := Completed, completedAt := c\<rparr> \<noteq> r"
  by (auto dest: arg_cong [where f = status])

lemma note_differs: "r\<lparr>noteList := noteList r @ [x]\<rparr> \<noteq> r"
  by (auto dest: arg_cong [where f = noteList])

lemma interest_differs: "r\<lparr>interested := interested r @ [u]\<rparr> \<noteq> r"
  by (auto dest: arg_cong [where f = interested])

section \<open>Approval\<close>

text \<open>
  Claim C2. Approving a stored request: an actor who is the recipient gets 403 whatever
  the status; another actor gets 400 (already approved) when the status is not open;
  another actor on an open request with a valid window succeeds; and every success
  yields the request with status approved, the actor as donor and the call time as
  approval time, which is what the store then holds.
\<close>

theorem approve_contract:
  assumes "findById st requestId = Some r"
  shows "(recipientId r = actor \<longrightarrow>
            approveHelpRequest actor requestId now st = Inl (Failure 403 CANNOT_APPROVE_OWN)) \<and>
         (recipientId r \<noteq> actor \<and> status r \<noteq> Open \<longrightarrow>
            approveHelpRequest actor requestId now st = Inl (Failure 400 ALREADY_APPROVED)) \<and>
         (recipientId r \<noteq> actor \<and> status r = Open \<and> startDate r < endDate r \<longrightarrow>
            (\<exists>r' st'. approveHelpRequest actor requestId now st = Inr (r', st'))) \<and>
         (\<forall>r' st'. approveHelpRequest actor requestId now st = Inr (r', st') \<longrightarrow>
            status r' = Approved \<and> donorId r' = Some actor \<and> approvedAt r' = Some now \<and>
            r' = r\<lparr>status := Approved, donorId := Some actor, approvedAt := Some now,
                    updatedAt := now\<rparr> \<and>
            findById st' requestId = Some r')"
proof -
  have rid: "rid r = requestId" using assms by (rule findById_rid)
  have a: "recipientId r = actor \<longrightarrow>
            approveHelpRequest actor requestId now st = Inl (Failure 403 CANNOT_APPROVE_OWN)"
    using assms by (simp add: approveHelpRequest_def validateHelpRequestAccess_def)
  have b: "recipientId r \<noteq> actor \<and> status r \<noteq> Open \<longrightarrow>
            approveHelpRequest actor requestId now st = Inl (Failure 400 ALREADY_APPROVED)"
    using assms by (simp add: approveHelpRequest_def validateHelpRequestAccess_def)
  have c: "recipientId r \<noteq> actor \<and> status r = Open \<and> startDate r < endDate r \<longrightarrow>
            (\<exists>r' st'. approveHelpRequest actor requestId now st = Inr (r', st'))"
    using assms
    by (simp add: approveHelpRequest_def validateHelpRequestAccess_def approve_def save_def Let_def)
  have d: "\<forall>r' st'. approveHelpRequest actor requestId now st = Inr (r', st') \<longrightarrow>
            status r' = Approved \<and> donorId r' = Some actor \<and> approvedAt r' = Some now \<and>
            r' = r\<lparr>status := Approved, donorId := Some actor, approvedAt := Some now,
                    updatedAt := now\<rparr> \<and>
            findById st' requestId = Some r'"
  proof (intro allI impI)
    fix r' st'
    assume ok: "approveHelpRequest actor requestId now st = Inr (r', st')"
    then have sv: "save now True
                     (r\<lparr>status := Approved, donorId := Some actor, approvedAt := Some now\<rparr>) st
                   = Inr (r', st')"
      using assms
      by (simp add: approveHelpRequest_def validateHelpRequestAccess_def approve_def Let_def
                    approved_differs split: if_splits)
    then have r': "r' = r\<lparr>status := Approved, donorId := Some actor, approvedAt := Some now,
                    updatedAt := now\<rparr>"
      and st': "st' = map (\<lambda>x. if rid x = requestId then r' else x) st"
      using rid by (simp_all add: save_Inr)
    have "findById st' requestId = Some r'"
      unfolding st' using assms by (rule findById_replace) (simp add: r' rid)
    then show "status r' = Approved \<and> donorId r' = Some actor \<and> approvedAt r' = Some now \<and>
            r' = r\<lparr>status := Approved, donorId := Some actor, approvedAt := Some now,
                    updatedAt := now\<rparr> \<and>
            findById st' requestId = Some r'"
      using r' by simp
  qed
  from a b c d show ?thesis by blast
qed

theorem approve_contract_witness:
  "approveHelpRequest 1 1 5 [exampleRequest] = Inl (Failure 403 CANNOT_APPROVE_OWN) \<and>
   approveHelpRequest 2 1 5 [exampleRequest\<lparr>status := Completed\<rparr>]
     = Inl (Failure 400 ALREADY_APPROVED) \<and>
   (\<exists>r' st'. approveHelpRequest 2 1 5 [exampleRequest] = Inr (r', st') \<and> status r' = Approved
       \<and> donorId r' = Some 2 \<and> approvedAt r' = Some 5)"
proof -
  have f1: "findById [exampleRequest] 1 = Some exampleRequest"
    by (simp add: findById_def exampleRequest_def)
  have f2: "findById [exampleRequest\<lparr>status := Completed\<rparr>] 1
            = Some (exampleRequest\<lparr>status := Completed\<rparr>)"
    by (simp add: findById_def exampleRequest_def)
  have p1: "approveHelpRequest 1 1 5 [exampleRequest] = Inl (Failure 403 CANNOT_APPROVE_OWN)"
    using approve_contract [OF f1, of 1 5] by (simp add: exampleRequest_def)
  have p2: "approveHelpRequest 2 1 5 [exampleRequest\<lparr>status := Completed\<rparr>]
     = Inl (Failure 400 ALREADY_APPROVED)"
    using approve_contract [OF f2, of 2 5] by (simp add: exampleRequest_def)
  have p3: "\<exists>r' st'. approveHelpRequest 2 1 5 [exampleRequest] = Inr (r', st') \<and> status r' = Approved
       \<and> donorId r' = Some 2 \<and> approvedAt r' = Some 5"
    using approve_contract [OF f1, of 2 5] by (auto simp add: exampleRequest_def)
  from p1 p2 p3 show ?thesis by blast
qed

lemma save_findById:
  assumes "findById st (rid r) = Some r0" "startDate r < endDate r"
  shows "\<exists>st'. save now True r st = Inr (r\<lparr>updatedAt := now\<rparr>, st') \<and>
               findById st' (rid r) = Some (r\<lparr>updatedAt := now\<rparr>)"
proof -
  let ?r' = "r\<lparr>updatedAt := now\<rparr>"
  have "findById (map (\<lambda>x. if rid x = rid r then ?r' else x) st) (rid r) = Some ?r'"
    using assms(1) by (rule findById_replace) simp
  then show ?thesis using assms(2) by (simp add: save_def Let_def)
qed

section \<open>Expiry and the transitions\<close>

text \<open>
  Claim C4 (as amended). The transitions do not compare the availability window with the
  call time. On a stored request whose status is open and whose end date is already past:
  approval by another actor succeeds and makes the request approved; an edit by the owner
  with a valid body that leaves the items alone succeeds, storing the request with the
  body's fields assigned and a new \<open>updatedAt\<close>, or leaving request and store as they
  are when the body changes nothing; marking interest by another actor who is not yet
  recorded succeeds and records the actor.
\<close>

theorem expired_open_request_transitions:
  assumes "findById st requestId = Some r" and "status r = Open"
    and "endDate r < now" and "startDate r < endDate r"
  shows "(recipientId r \<noteq> actor \<longrightarrow>
            (\<exists>st'. approveHelpRequest actor requestId now st
                     = Inr (r\<lparr>status := Approved, donorId := Some actor,
                               approvedAt := Some now, updatedAt := now\<rparr>, st'))) \<and>
         (recipientId r = actor \<and> validUpdateBody now b \<and> updItems b = None \<longrightarrow>
            (\<exists>st'. updateHelpRequest cat actor requestId b now st
                     = Inr (if assignUpdates r b None = r then r
                            else (assignUpdates r b None)\<lparr>updatedAt := now\<rparr>, st') \<and>
                   (assignUpdates r b None = r \<longrightarrow> st' = st) \<and>
                   findById st' requestId
                     = Some (if assignUpdates r b None = r then r
                             else (assignUpdates r b None)\<lparr>updatedAt := now\<rparr>))) \<and>
         (recipientId r \<noteq> actor \<and> actor \<notin> set (interested r) \<longrightarrow>
            (\<exists>st'. markInterest actor requestId now st
                     = Inr (r\<lparr>interested := interested r @ [actor], updatedAt := now\<rparr>, st')))"
proof -
  have rid: "rid r = requestId" using assms(1) by (rule findById_rid)
  have a: "recipientId r \<noteq> actor \<longrightarrow>
            (\<exists>st'. approveHelpRequest actor requestId now st
                     = Inr (r\<lparr>status := Approved, donorId := Some actor,
                               approvedAt := Some now, updatedAt := now\<rparr>, st'))"
    using assms
    by (simp add: approveHelpRequest_def validateHelpRequestAccess_def approve_def save_def
                  Let_def approved_differs)
  have b: "recipientId r = actor \<and> validUpdateBody now b \<and> updItems b = None \<longrightarrow>
            (\<exists>st'. updateHelpRequest cat actor requestId b now st
                     = Inr (if assignUpdates r b None = r then r
                            else (assignUpdates r b None)\<lparr>updatedAt := now\<rparr>, st') \<and>
                   (assignUpdates r b None = r \<longrightarrow> st' = st) \<and>
                   findById st' requestId
                     = Some (if assignUpdates r b None = r then r
                             else (assignUpdates r b None)\<lparr>updatedAt := now\<rparr>))"
  proof (intro impI)
    assume h: "recipientId r = actor \<and> validUpdateBody now b \<and> updItems b = None"
    define q where "q = assignUpdates r b None"
    have w: "startDate q < endDate q"
      using h assms(4) unfolding q_def
      by (cases "updWindow b") (auto simp: assignUpdates_def validUpdateBody_def)
    have qid: "rid q = requestId" by (simp add: q_def assignUpdates_def rid)
    have u: "updateHelpRequest cat actor requestId b now st = save now (q \<noteq> r) q st"
      using h assms(1)
      by (simp add: updateHelpRequest_def validateHelpRequestAccess_def Let_def q_def)
    show "\<exists>st'. updateHelpRequest cat actor requestId b now st
                     = Inr (if assignUpdates r b None = r then r
                            else (assignUpdates r b None)\<lparr>updatedAt := now\<rparr>, st') \<and>
                   (assignUpdates r b None = r \<longrightarrow> st' = st) \<and>
                   findById st' requestId
                     = Some (if assignUpdates r b None = r then r
                             else (assignUpdates r b None)\<lparr>updatedAt := now\<rparr>)"
    proof (cases "q = r")
      case True
      then show ?thesis
        unfolding u q_def [symmetric] using w assms(1) by (simp add: save_def)
    next
      case False
      have "findById (map (\<lambda>x. if rid x = requestId then q\<lparr>updatedAt := now\<rparr> else x) st)
              requestId = Some (q\<lparr>updatedAt := now\<rparr>)"
        using assms(1) by (rule findById_replace) (simp add: qid)
      then show ?thesis
        unfolding u q_def [symmetric] using False w qid by (simp add: save_def Let_def)
    qed
  qed
  have c: "recipientId r \<noteq> actor \<and> actor \<notin> set (interested r) \<longrightarrow>
            (\<exists>st'. markInterest actor requestId now st
                     = Inr (r\<lparr>interested := interested r @ [actor], updatedAt := now\<rparr>, st'))"
    using assms
    by (simp add: markInterest_def markInterested_def save_def Let_def interest_differs)
  from a b c show ?thesis by blast
qed

theorem expired_open_request_transitions_witness:
  "(\<exists>st'. approveHelpRequest 2 1 2000 [exampleRequest]
       = Inr (exampleRequest\<lparr>status := Approved, donorId := Some 2,
                               approvedAt := Some 2000, updatedAt := 2000\<rparr>, st')) \<and>
   (\<exists>st'. updateHelpRequest [] 1 1 retitle 2000 [exampleRequest]
       = Inr (exampleRequest\<lparr>title := ''Need rice, lentils and oil'', updatedAt := 2000\<rparr>, st') \<and>
      findById st' 1
       = Some (exampleRequest\<lparr>title := ''Need rice, lentils and oil'', updatedAt := 2000\<rparr>)) \<and>
   updateHelpRequest [] 1 1 emptyUpdate 2000 [exampleRequest]
       = Inr (exampleRequest, [exampleRequest]) \<and>
   (\<exists>st'. markInterest 2 1 2000 [exampleRequest]
       = Inr (exampleRequest\<lparr>interested := interested exampleRequest @ [2],
                               updatedAt := 2000\<rparr>, st'))"
proof -
  have f: "findById [exampleRequest] 1 = Some exampleRequest"
    by (simp add: findById_def exampleRequest_def)
  have s: "status exampleRequest = Open" and e: "endDate exampleRequest < 2000"
    and w: "startDate exampleRequest < endDate exampleRequest"
    by (simp_all add: exampleRequest_def)
  have v: "validUpdateBody 2000 retitle \<and> updItems retitle = None"
    "validUpdateBody 2000 emptyUpdate \<and> updItems emptyUpdate = None"
    by (simp_all add: validUpdateBody_def retitle_def emptyUpdate_def)
  have o: "recipientId exampleRequest = 1" and i: "2 \<notin> set (interested exampleRequest)"
    by (simp_all add: exampleRequest_def)
  have q1: "assignUpdates exampleRequest retitle None
              = exampleRequest\<lparr>title := ''Need rice, lentils and oil''\<rparr>"
    by (simp add: assignUpdates_def retitle_def emptyUpdate_def exampleRequest_def)
  have n1: "exampleRequest\<lparr>title := ''Need rice, lentils and oil''\<rparr> \<noteq> exampleRequest"
    by (simp add: exampleRequest_def)
  have q0: "assignUpdates exampleRequest emptyUpdate None = exampleRequest"
    by (simp add: assignUpdates_def emptyUpdate_def exampleRequest_def)
  have p1: "\<exists>st'. approveHelpRequest 2 1 2000 [exampleRequest]
       = Inr (exampleRequest\<lparr>status := Approved, donorId := Some 2,
                               approvedAt := Some 2000, updatedAt := 2000\<rparr>, st')"
    using expired_open_request_transitions [OF f s e w, of 2 emptyUpdate "[]"] o by simp
  have p2: "\<exists>st'. updateHelpRequest [] 1 1 retitle 2000 [exampleRequest]
       = Inr (exampleRequest\<lparr>title := ''Need rice, lentils and oil'', updatedAt := 2000\<rparr>, st') \<and>
      findById st' 1
       = Some (exampleRequest\<lparr>title := ''Need rice, lentils and oil'', updatedAt := 2000\<rparr>)"
    using expired_open_request_transitions [OF f s e w, of 1 retitle "[]"] o v(1)
    unfolding q1 using n1 by auto
  have p3: "updateHelpRequest [] 1 1 emptyUpdate 2000 [exampleRequest]
       = Inr (exampleRequest, [exampleRequest])"
    using expired_open_request_transitions [OF f s e w, of 1 emptyUpdate "[]"] o v(2)
    unfolding q0 by auto
  have p4: "\<exists>st'. markInterest 2 1 2000 [exampleRequest]
       = Inr (exampleRequest\<lparr>interested := interested exampleRequest @ [2],
                               updatedAt := 2000\<rparr>, st')"
    using expired_open_request_transitions [OF f s e w, of 2 emptyUpdate "[]"] o i by simp
  from p1 p2 p3 p4 show ?thesis by blast
qed

text \<open>
  Claim C4 as stated fails: the example request is open and its window ended at 1000, yet
  an approval at time 2000 by user 2 succeeds.
\<close>

theorem approve_expired_counterexample:
  "status exampleRequest = Open \<and> endDate exampleRequest < 2000 \<and>
   approveHelpRequest 2 1 2000 [exampleRequest]
     = Inr (exampleRequest\<lparr>status := Approved, donorId := Some 2, approvedAt := Some 2000,
                             updatedAt := 2000\<rparr>,
            [exampleRequest\<lparr>status := Approved, donorId := Some 2, approvedAt := Some 2000,
                             updatedAt := 2000\<rparr>])"
  by (simp add: approveHelpRequest_def validateHelpRequestAccess_def approve_def save_def
                Let_def findById_def exampleRequest_def)

section \<open>Editing and deleting\<close>

text \<open>
  Claim C5 at its failing input: the owner edits the title of their own approved request.
  The route answers with the changed request and stores it; the claim requires a refusal
  that leaves the request unchanged.
\<close>

theorem owner_edits_approved_request:
  "status approvedRequest = Approved \<and> recipientId approvedRequest = 1 \<and>
   updateHelpRequest [] 1 1 retitle 10 [approvedRequest]
     = Inr (approvedRequest\<lparr>title := ''Need rice, lentils and oil'', updatedAt := 10\<rparr>,
            [approvedRequest\<lparr>title := ''Need rice, lentils and oil'', updatedAt := 10\<rparr>])"
  by (simp add: updateHelpRequest_def validateHelpRequestAccess_def save_def findById_def
                Let_def assignUpdates_def validUpdateBody_def retitle_def emptyUpdate_def
                approvedRequest_def exampleRequest_def)

text \<open>
  Claim C7 at its failing input: the owner deletes their own completed request. The
  route removes it from the store; the claim requires the deletion to fail.
\<close>

theorem owner_deletes_completed_request:
  "status completedRequest = Completed \<and> recipientId completedRequest = 1 \<and>
   deleteHelpRequest 1 1 [completedRequest] = Inr []"
  by (simp add: deleteHelpRequest_def validateHelpRequestAccess_def findById_def
                completedRequest_def approvedRequest_def exampleRequest_def)

section \<open>Rating\<close>

lemma recipientRating_fix: "r\<lparr>recipientRating := Some rd\<rparr> = r \<longleftrightarrow> recipientRating r = Some rd"
proof
  assume "r\<lparr>recipientRating := Some rd\<rparr> = r"
  then have "recipientRating (r\<lparr>recipientRating := Some rd\<rparr>) = recipientRating r" by (rule arg_cong)
  then show "recipientRating r = Some rd" by simp
next
  assume "recipientRating r = Some rd"
  then have "Some rd = recipientRating r" by (rule sym)
  then show "r\<lparr>recipientRating := Some rd\<rparr> = r" by simp
qed

lemma donorRating_fix: "r\<lparr>donorRating := Some rd\<rparr> = r \<longleftrightarrow> donorRating r = Some rd"
proof
  assume "r\<lparr>donorRating := Some rd\<rparr> = r"
  then have "donorRating (r\<lparr>donorRating := Some rd\<rparr>) = donorRating r" by (rule arg_cong)
  then show "donorRating r = Some rd" by simp
next
  assume "donorRating r = Some rd"
  then have "Some rd = donorRating r" by (rule sym)
  then show "r\<lparr>donorRating := Some rd\<rparr> = r" by simp
qed

lemma rate_unfold:
  assumes "findById st requestId = Some r" "status r = Completed"
    "recipientId r = actor \<or> donorId r = Some actor"
  shows "rateHelpRequest actor requestId n cmt now st =
     save now ((if recipientId r = actor
                then r\<lparr>recipientRating := Some \<lparr>stars = n, comment = cmt, ratedAt = now\<rparr>\<rparr>
                else r\<lparr>donorRating := Some \<lparr>stars = n, comment = cmt, ratedAt = now\<rparr>\<rparr>) \<noteq> r)
       (if recipientId r = actor
                then r\<lparr>recipientRating := Some \<lparr>stars = n, comment = cmt, ratedAt = now\<rparr>\<rparr>
                else r\<lparr>donorRating := Some \<lparr>stars = n, comment = cmt, ratedAt = now\<rparr>\<rparr>) st"
proof (cases "recipientId r = actor")
  case True
  show ?thesis unfolding rateHelpRequest_def Let_def assms(1) option.case
    using assms(2) True by (simp only: simp_thms if_True if_False)
next
  case False
  then have "donorId r = Some actor" using assms(3) by blast
  then show ?thesis unfolding rateHelpRequest_def Let_def assms(1) option.case
    using assms(2) False by (simp only: simp_thms if_True if_False)
qed


text \<open>
  Claim C6 (as amended). Rating a stored request: any status other than completed gives
  400 for every actor; on a completed request an actor who is neither recipient nor donor
  gets 403; a call by the recipient writes \<open>rating.recipientRating\<close>, and a call by the
  donor writes \<open>rating.donorRating\<close> (the request gets a new \<open>updatedAt\<close> unless the slot
  already held exactly this rating); a success only happens on a completed request for
  its recipient or donor, the returned request holds the rating in the caller's slot,
  and the store then holds the returned request.
\<close>

theorem rate_contract:
  assumes "findById st requestId = Some r"
  shows "(status r \<noteq> Completed \<longrightarrow>
            rateHelpRequest actor requestId n cmt now st
              = Inl (Failure 400 ''Can only rate completed help requests'')) \<and>
         (status r = Completed \<and> recipientId r \<noteq> actor \<and> donorId r \<noteq> Some actor \<longrightarrow>
            rateHelpRequest actor requestId n cmt now st
              = Inl (Failure 403 ''Only recipient and donor can rate this request'')) \<and>
         (status r = Completed \<and> recipientId r = actor \<and> startDate r < endDate r \<longrightarrow>
            (\<exists>st'. rateHelpRequest actor requestId n cmt now st
               = Inr (if recipientRating r = Some \<lparr>stars = n, comment = cmt, ratedAt = now\<rparr>
                      then r
                      else r\<lparr>recipientRating := Some \<lparr>stars = n, comment = cmt, ratedAt = now\<rparr>,
                             updatedAt := now\<rparr>, st'))) \<and>
         (status r = Completed \<and> recipientId r \<noteq> actor \<and> donorId r = Some actor \<and>
          startDate r < endDate r \<longrightarrow>
            (\<exists>st'. rateHelpRequest actor requestId n cmt now st
               = Inr (if donorRating r = Some \<lparr>stars = n, comment = cmt, ratedAt = now\<rparr>
                      then r
                      else r\<lparr>donorRating := Some \<lparr>stars = n, comment = cmt, ratedAt = now\<rparr>,
                             updatedAt := now\<rparr>, st'))) \<and>
         (\<forall>r' st'. rateHelpRequest actor requestId n cmt now st = Inr (r', st') \<longrightarrow>
            status r = Completed \<and> (recipientId r = actor \<or> donorId r = Some actor) \<and>
            (if recipientId r = actor
             then recipientRating r' = Some \<lparr>stars = n, comment = cmt, ratedAt = now\<rparr> \<and>
                  donorRating r' = donorRating r
             else donorRating r' = Some \<lparr>stars = n, comment = cmt, ratedAt = now\<rparr> \<and>
                  recipientRating r' = recipientRating r) \<and>
            findById st' requestId = Some r')"
proof -
  define rd where "rd = \<lparr>stars = n, comment = cmt, ratedAt = now\<rparr>"
  define q where "q = (if recipientId r = actor then r\<lparr>recipientRating := Some rd\<rparr>
                       else r\<lparr>donorRating := Some rd\<rparr>)"
  have rid: "rid r = requestId" using assms by (rule findById_rid)
  have qid: "rid q = requestId" unfolding q_def using rid by simp
  have qw: "startDate q = startDate r" "endDate q = endDate r" unfolding q_def by simp_all
  have a: "status r \<noteq> Completed \<longrightarrow>
            rateHelpRequest actor requestId n cmt now st
              = Inl (Failure 400 ''Can only rate completed help requests'')"
    using assms by (simp add: rateHelpRequest_def)
  have b: "status r = Completed \<and> recipientId r \<noteq> actor \<and> donorId r \<noteq> Some actor \<longrightarrow>
            rateHelpRequest actor requestId n cmt now st
              = Inl (Failure 403 ''Only recipient and donor can rate this request'')"
    using assms by (simp add: rateHelpRequest_def)
  have u: "rateHelpRequest actor requestId n cmt now st = save now (q \<noteq> r) q st"
    if "status r = Completed" "recipientId r = actor \<or> donorId r = Some actor"
    unfolding q_def rd_def using assms that by (rule rate_unfold)
  have q1: "q = r\<lparr>recipientRating := Some rd\<rparr>" if "recipientId r = actor"
    unfolding q_def using that by (simp only: simp_thms if_True)
  have q2: "q = r\<lparr>donorRating := Some rd\<rparr>" if "recipientId r \<noteq> actor"
    unfolding q_def using that by (simp only: simp_thms if_False)
  have e1: "q = r \<longleftrightarrow> recipientRating r = Some rd" if "recipientId r = actor"
    unfolding q1 [OF that] by (rule recipientRating_fix)
  have e2: "q = r \<longleftrightarrow> donorRating r = Some rd" if "recipientId r \<noteq> actor"
    unfolding q2 [OF that] by (rule donorRating_fix)
  have same: "save now (q \<noteq> r) q st = Inr (r, st)" if "q = r" "startDate r < endDate r"
  proof -
    have "save now False r st = Inr (r, st)" using that(2) by (simp add: save_unmodified_Inr)
    then show ?thesis using that(1) by simp
  qed
  have changed: "save now (q \<noteq> r) q st
      = Inr (q\<lparr>updatedAt := now\<rparr>,
             map (\<lambda>x. if rid x = requestId then q\<lparr>updatedAt := now\<rparr> else x) st)"
    if "q \<noteq> r" "startDate r < endDate r"
  proof -
    have "save now True q st
      = Inr (q\<lparr>updatedAt := now\<rparr>,
             map (\<lambda>x. if rid x = requestId then q\<lparr>updatedAt := now\<rparr> else x) st)"
      using that(2) qw qid by (simp add: save_Inr)
    then show ?thesis using that(1) by simp
  qed
  have c: "status r = Completed \<and> recipientId r = actor \<and> startDate r < endDate r \<longrightarrow>
            (\<exists>st'. rateHelpRequest actor requestId n cmt now st
               = Inr (if recipientRating r = Some rd then r
                      else r\<lparr>recipientRating := Some rd, updatedAt := now\<rparr>, st'))"
  proof (intro impI)
    assume h: "status r = Completed \<and> recipientId r = actor \<and> startDate r < endDate r"
    then have ra: "recipientId r = actor" and w: "startDate r < endDate r" by blast+
    have r1: "rateHelpRequest actor requestId n cmt now st = save now (q \<noteq> r) q st"
      using u h by blast
    show "\<exists>st'. rateHelpRequest actor requestId n cmt now st
               = Inr (if recipientRating r = Some rd then r
                      else r\<lparr>recipientRating := Some rd, updatedAt := now\<rparr>, st')"
    proof (cases "q = r")
      case True
      then have "recipientRating r = Some rd" using e1 [OF ra] by blast
      then show ?thesis unfolding r1 same [OF True w] by (simp only: simp_thms if_True) blast
    next
      case False
      then have "recipientRating r \<noteq> Some rd" using e1 [OF ra] by blast
      moreover have "q\<lparr>updatedAt := now\<rparr> = r\<lparr>recipientRating := Some rd, updatedAt := now\<rparr>"
        unfolding q1 [OF ra] by (rule refl)
      ultimately show ?thesis unfolding r1 changed [OF False w]
        by (simp only: simp_thms if_False) blast
    qed
  qed
  have d: "status r = Completed \<and> recipientId r \<noteq> actor \<and> donorId r = Some actor \<and>
          startDate r < endDate r \<longrightarrow>
            (\<exists>st'. rateHelpRequest actor requestId n cmt now st
               = Inr (if donorRating r = Some rd then r
                      else r\<lparr>donorRating := Some rd, updatedAt := now\<rparr>, st'))"
  proof (intro impI)
    assume h: "status r = Completed \<and> recipientId r \<noteq> actor \<and> donorId r = Some actor \<and>
          startDate r < endDate r"
    then have ra: "recipientId r \<noteq> actor" and w: "startDate r < endDate r" by blast+
    have r1: "rateHelpRequest actor requestId n cmt now st = save now (q \<noteq> r) q st"
      using u h by blast
    show "\<exists>st'. rateHelpRequest actor requestId n cmt now st
               = Inr (if donorRating r = Some rd then r
                      else r\<lparr>donorRating := Some rd, updatedAt := now\<rparr>, st')"
    proof (cases "q = r")
      case True
      then have "donorRating r = Some rd" using e2 [OF ra] by blast
      then show ?thesis unfolding r1 same [OF True w] by (simp only: simp_thms if_True) blast
    next
      case False
      then have "donorRating r \<noteq> Some rd" using e2 [OF ra] by blast
      moreover have "q\<lparr>updatedAt := now\<rparr> = r\<lparr>donorRating := Some rd, updatedAt := now\<rparr>"
        unfolding q2 [OF ra] by (rule refl)
      ultimately show ?thesis unfolding r1 changed [OF False w]
        by (simp only: simp_thms if_False) blast
    qed
  qed
  have e: "\<forall>r' st'. rateHelpRequest actor requestId n cmt now st = Inr (r', st') \<longrightarrow>
            status r = Completed \<and> (recipientId r = actor \<or> donorId r = Some actor) \<and>
            (if recipientId r = actor
             then recipientRating r' = Some rd \<and> donorRating r' = donorRating r
             else donorRating r' = Some rd \<and> recipientRating r' = recipientRating r) \<and>
            findById st' requestId = Some r'"
  proof (intro allI impI)
    fix r' st'
    assume ok: "rateHelpRequest actor requestId n cmt now st = Inr (r', st')"
    have s1: "status r = Completed" using ok a by (cases "status r = Completed") simp_all
    have s2: "recipientId r = actor \<or> donorId r = Some actor"
    proof (rule ccontr)
      assume "\<not> (recipientId r = actor \<or> donorId r = Some actor)"
      then have "rateHelpRequest actor requestId n cmt now st
              = Inl (Failure 403 ''Only recipient and donor can rate this request'')"
        using b s1 by blast
      then show False using ok by simp
    qed
    have sv: "save now (q \<noteq> r) q st = Inr (r', st')" using u [OF s1 s2] ok by simp
    have w: "startDate r < endDate r"
    proof (rule ccontr)
      assume "\<not> startDate r < endDate r"
      then have "endDate q \<le> startDate q" using qw by simp
      then have "save now (q \<noteq> r) q st = Inl (Failure 500 SERVER_ERROR)"
        by (simp add: save_Inl)
      then show False using sv by simp
    qed
    have slot: "if recipientId r = actor
             then recipientRating q = Some rd \<and> donorRating q = donorRating r
             else donorRating q = Some rd \<and> recipientRating q = recipientRating r"
      unfolding q_def by simp
    have "(if recipientId r = actor
             then recipientRating r' = Some rd \<and> donorRating r' = donorRating r
             else donorRating r' = Some rd \<and> recipientRating r' = recipientRating r) \<and>
            findById st' requestId = Some r'"
    proof (cases "q = r")
      case True
      have "r' = r \<and> st' = st" using sv same [OF True w] by simp
      moreover have "if recipientId r = actor
             then recipientRating r = Some rd \<and> donorRating r = donorRating r
             else donorRating r = Some rd \<and> recipientRating r = recipientRating r"
        using slot unfolding True .
      ultimately show ?thesis using assms by simp
    next
      case False
      have h: "r' = q\<lparr>updatedAt := now\<rparr> \<and>
           st' = map (\<lambda>x. if rid x = requestId then q\<lparr>updatedAt := now\<rparr> else x) st"
        using sv changed [OF False w] by simp
      have f: "findById (map (\<lambda>x. if rid x = requestId then q\<lparr>updatedAt := now\<rparr> else x) st)
              requestId = Some (q\<lparr>updatedAt := now\<rparr>)"
        using assms by (rule findById_replace) (simp add: qid)
      have slot': "if recipientId r = actor
             then recipientRating (q\<lparr>updatedAt := now\<rparr>) = Some rd \<and>
                  donorRating (q\<lparr>updatedAt := now\<rparr>) = donorRating r
             else donorRating (q\<lparr>updatedAt := now\<rparr>) = Some rd \<and>
                  recipientRating (q\<lparr>updatedAt := now\<rparr>) = recipientRating r"
        using slot by simp
      show ?thesis using h f slot' by simp
    qed
    with s1 s2 show "status r = Completed \<and> (recipientId r = actor \<or> donorId r = Some actor) \<and>
            (if recipientId r = actor
             then recipientRating r' = Some rd \<and> donorRating r' = donorRating r
             else donorRating r' = Some rd \<and> recipientRating r' = recipientRating r) \<and>
            findById st' requestId = Some r'" by blast
  qed
  from a b c d e show ?thesis unfolding rd_def by blast
qed

theorem rate_contract_witness:
  "rateHelpRequest 1 1 5 ''thanks'' 20 [approvedRequest]
     = Inl (Failure 400 ''Can only rate completed help requests'') \<and>
   rateHelpRequest 3 1 5 ''thanks'' 20 [completedRequest]
     = Inl (Failure 403 ''Only recipient and donor can rate this request'') \<and>
   (\<exists>st'. rateHelpRequest 1 1 5 ''thanks'' 20 [completedRequest]
      = Inr (completedRequest\<lparr>recipientRating :=
               Some \<lparr>stars = 5, comment = ''thanks'', ratedAt = 20\<rparr>, updatedAt := 20\<rparr>, st')) \<and>
   (\<exists>st'. rateHelpRequest 2 1 4 ''welcome'' 20 [completedRequest]
      = Inr (completedRequest\<lparr>donorRating :=
               Some \<lparr>stars = 4, comment = ''welcome'', ratedAt = 20\<rparr>, updatedAt := 20\<rparr>, st'))"
proof -
  have fa: "findById [approvedRequest] 1 = Some approvedRequest"
    by (simp add: findById_def approvedRequest_def exampleRequest_def)
  have fc: "findById [completedRequest] 1 = Some completedRequest"
    by (simp add: findById_def completedRequest_def approvedRequest_def exampleRequest_def)
  have sa: "status approvedRequest \<noteq> Completed"
    by (simp add: approvedRequest_def)
  have sc: "status completedRequest = Completed" "recipientId completedRequest = 1"
    "donorId completedRequest = Some 2" "startDate completedRequest < endDate completedRequest"
    "recipientRating completedRequest = None" "donorRating completedRequest = None"
    by (simp_all add: completedRequest_def approvedRequest_def exampleRequest_def)
  show ?thesis
    using rate_contract [OF fa, of 1 5 "''thanks''" 20] sa
          rate_contract [OF fc, of 3 5 "''thanks''" 20]
          rate_contract [OF fc, of 1 5 "''thanks''" 20]
          rate_contract [OF fc, of 2 4 "''welcome''" 20] sc
    by simp
qed

text \<open>
  Claim C6 as stated fails: a rating by the recipient (user 1) of the completed example
  request is written to \<open>rating.recipientRating\<close>, and \<open>rating.donorRating\<close> stays empty.
\<close>

theorem recipient_rating_slot_counterexample:
  "recipientId completedRequest = 1 \<and>
   rateHelpRequest 1 1 5 ''thanks'' 20 [completedRequest]
     = Inr (completedRequest\<lparr>recipientRating :=
              Some \<lparr>stars = 5, comment = ''thanks'', ratedAt = 20\<rparr>, updatedAt := 20\<rparr>,
            [completedRequest\<lparr>recipientRating :=
              Some \<lparr>stars = 5, comment = ''thanks'', ratedAt = 20\<rparr>, updatedAt := 20\<rparr>]) \<and>
   donorRating (completedRequest\<lparr>recipientRating :=
              Some \<lparr>stars = 5, comment = ''thanks'', ratedAt = 20\<rparr>, updatedAt := 20\<rparr>) = None"
  by (simp add: rateHelpRequest_def save_def findById_def Let_def
                completedRequest_def approvedRequest_def exampleRequest_def)

section \<open>Category inference: the most common category, ties to the latest key\<close>















section \<open>State-machine safety\<close>

lemma safeAt_mono: "safeAt t r \<Longrightarrow> t \<le> t' \<Longrightarrow> safeAt t' r"
  by (auto simp: safeAt_def)

lemma findById_mem: "findById st i = Some r \<Longrightarrow> r \<in> set st"
  by (auto simp: findById_def find_Some_iff)

lemma save_preserves:
  assumes "save now m r st = Inr (r', st')" and "\<forall>x \<in> set st. P x" and "P (r\<lparr>updatedAt := now\<rparr>)"
  shows "\<forall>x \<in> set st'. P x"
  using assms by (cases m) (auto simp: save_Inr save_unmodified_Inr)

lemma safeAt_cong:
  "status r' = status r \<Longrightarrow> donorId r' = donorId r \<Longrightarrow> approvedAt r' = approvedAt r \<Longrightarrow>
   completedAt r' = completedAt r \<Longrightarrow> safeAt t r' = safeAt t r"
  by (simp add: safeAt_def stateMachineSafe_def)

lemma safeAt_updatedAt [simp]: "safeAt t (r\<lparr>updatedAt := n\<rparr>) = safeAt t r"
  by (rule safeAt_cong) simp_all

lemma approve_preserves:
  assumes "approveHelpRequest u i now st = Inr (r', st')" and "\<forall>x \<in> set st. safeAt now x"
  shows "\<forall>x \<in> set st'. safeAt now x"
proof -
  obtain r m where r: "findById st i = Some r"
    and sv: "save now m (r\<lparr>status := Approved, donorId := Some u, approvedAt := Some now\<rparr>) st
             = Inr (r', st')"
    using assms(1)
    by (auto simp: approveHelpRequest_def validateHelpRequestAccess_def approve_def Let_def
             split: option.splits if_splits)
  show ?thesis
    by (rule save_preserves [OF sv assms(2)])
       (simp add: safeAt_def stateMachineSafe_def del: safeAt_updatedAt)
qed

lemma complete_preserves:
  assumes "completeHelpRequest u i now st = Inr (r', st')" and "\<forall>x \<in> set st. safeAt now x"
  shows "\<forall>x \<in> set st'. safeAt now x"
proof -
  obtain r m where r: "findById st i = Some r" and s: "status r = Approved"
    and sv: "save now m (r\<lparr>status := Completed, completedAt := Some now\<rparr>) st = Inr (r', st')"
    using assms(1)
    by (auto simp: completeHelpRequest_def validateHelpRequestAccess_def complete_def Let_def
             split: option.splits if_splits)
  have "safeAt now r" using assms(2) findById_mem [OF r] by blast
  then have "safeAt now (r\<lparr>status := Completed, completedAt := Some now\<rparr>)"
    using s by (auto simp: safeAt_def stateMachineSafe_def)
  then show ?thesis
    by (intro save_preserves [OF sv assms(2)]) simp
qed

lemma assignUpdates_safeAt [simp]: "safeAt t (assignUpdates r b c) = safeAt t r"
  by (rule safeAt_cong) (simp_all add: assignUpdates_def)

lemma update_preserves:
  assumes "updateHelpRequest cat u i b now st = Inr (r', st')" and "\<forall>x \<in> set st. safeAt now x"
  shows "\<forall>x \<in> set st'. safeAt now x"
proof -
  obtain r c m where r: "findById st i = Some r"
    and sv: "save now m (assignUpdates r b c) st = Inr (r', st')"
    using assms(1)
    by (auto simp: updateHelpRequest_def validateHelpRequestAccess_def Let_def
             split: option.splits if_splits)
  have "safeAt now r" using assms(2) findById_mem [OF r] by blast
  then show ?thesis
    by (intro save_preserves [OF sv assms(2)]) simp
qed

lemma create_preserves:
  assumes "createHelpRequest users cat u i b now st = Inr (r', st')"
    and "\<forall>x \<in> set st. safeAt now x"
  shows "\<forall>x \<in> set st'. safeAt now x"
  using assms
  by (auto simp: createHelpRequest_def saveNew_def Let_def safeAt_def stateMachineSafe_def
           simp del: safeAt_updatedAt split: option.splits if_splits)

lemma delete_preserves:
  assumes "deleteHelpRequest u i st = Inr st'" and "\<forall>x \<in> set st. safeAt now x"
  shows "\<forall>x \<in> set st'. safeAt now x"
  using assms
  by (auto simp: deleteHelpRequest_def split: sum.splits if_splits)

lemma addNote_preserves:
  assumes "addNote u i txt now st = Inr (r', st')" and "\<forall>x \<in> set st. safeAt now x"
  shows "\<forall>x \<in> set st'. safeAt now x"
proof -
  obtain r m where r: "findById st i = Some r"
    and sv: "save now m (r\<lparr>noteList := noteList r @ [\<lparr>author = u, content = txt\<rparr>]\<rparr>) st
             = Inr (r', st')"
    using assms(1)
    by (auto simp: addNote_def addNoteMethod_def Let_def split: option.splits if_splits)
  have "safeAt now r" using assms(2) findById_mem [OF r] by blast
  moreover have "safeAt now (r\<lparr>noteList := noteList r @ [\<lparr>author = u, content = txt\<rparr>]\<rparr>)
                 = safeAt now r"
    by (rule safeAt_cong) simp_all
  ultimately show ?thesis
    by (intro save_preserves [OF sv assms(2)]) simp
qed

lemma markInterest_preserves:
  assumes "markInterest u i now st = Inr (r', st')" and "\<forall>x \<in> set st. safeAt now x"
  shows "\<forall>x \<in> set st'. safeAt now x"
proof -
  obtain r m where r: "findById st i = Some r"
    and sv: "st' = st \<or> save now m (r\<lparr>interested := interested r @ [u]\<rparr>) st = Inr (r', st')"
    using assms(1)
    by (auto simp: markInterest_def markInterested_def Let_def split: option.splits if_splits)
  have "safeAt now r" using assms(2) findById_mem [OF r] by blast
  moreover have "safeAt now (r\<lparr>interested := interested r @ [u], updatedAt := now\<rparr>)
                 = safeAt now r"
    by (rule safeAt_cong) simp_all
  ultimately have q: "safeAt now (r\<lparr>interested := interested r @ [u], updatedAt := now\<rparr>)"
    by simp
  from sv show ?thesis
  proof
    assume "st' = st"
    then show ?thesis using assms(2) by simp
  next
    assume sv': "save now m (r\<lparr>interested := interested r @ [u]\<rparr>) st = Inr (r', st')"
    show ?thesis
      by (rule save_preserves [OF sv' assms(2)]) (use q in simp)
  qed
qed

lemma rate_preserves:
  assumes "rateHelpRequest u i n cmt now st = Inr (r', st')" and "\<forall>x \<in> set st. safeAt now x"
  shows "\<forall>x \<in> set st'. safeAt now x"
proof -
  obtain r where r: "findById st i = Some r"
    using assms(1) by (cases "findById st i") (simp_all add: rateHelpRequest_def)
  define q1 where "q1 = r\<lparr>recipientRating := Some \<lparr>stars = n, comment = cmt, ratedAt = now\<rparr>\<rparr>"
  define q2 where "q2 = r\<lparr>donorRating := Some \<lparr>stars = n, comment = cmt, ratedAt = now\<rparr>\<rparr>"
  have "\<exists>m. save now m q1 st = Inr (r', st') \<or> save now m q2 st = Inr (r', st')"
    using assms(1) r by (auto simp: rateHelpRequest_def Let_def q1_def q2_def split: if_splits)
  then obtain m where sv: "save now m q1 st = Inr (r', st') \<or> save now m q2 st = Inr (r', st')"
    by blast
  have sr: "safeAt now r" using assms(2) findById_mem [OF r] by blast
  have "safeAt now q1 = safeAt now r" unfolding q1_def by (rule safeAt_cong) simp_all
  then have s1: "safeAt now (q1\<lparr>updatedAt := now\<rparr>)" using sr by simp
  have "safeAt now q2 = safeAt now r" unfolding q2_def by (rule safeAt_cong) simp_all
  then have s2: "safeAt now (q2\<lparr>updatedAt := now\<rparr>)" using sr by simp
  from sv show ?thesis
  proof
    assume a: "save now m q1 st = Inr (r', st')"
    show ?thesis by (rule save_preserves [OF a assms(2) s1])
  next
    assume a: "save now m q2 st = Inr (r', st')"
    show ?thesis by (rule save_preserves [OF a assms(2) s2])
  qed
qed

lemma flag_preserves:
  assumes "flagHelpRequest u i why now st = Inr (r', st')" and "\<forall>x \<in> set st. safeAt now x"
  shows "\<forall>x \<in> set st'. safeAt now x"
proof -
  obtain r q m where r: "findById st i = Some r"
    and sv: "save now m (r\<lparr>flagged := q\<rparr>) st = Inr (r', st')"
    using assms(1)
    by (auto simp: flagHelpRequest_def flag_def Let_def split: option.splits)
  have "safeAt now r" using assms(2) findById_mem [OF r] by blast
  moreover have "safeAt now (r\<lparr>flagged := q\<rparr>) = safeAt now r"
    by (rule safeAt_cong) simp_all
  ultimately show ?thesis
    by (intro save_preserves [OF sv assms(2)]) simp
qed

lemma perform_preserves:
  assumes "perform users cat ev now st = Inr st'" and "\<forall>x \<in> set st. safeAt now x"
  shows "\<forall>x \<in> set st'. safeAt now x"
proof (cases ev)
  case (CreateEvent u i b)
  then obtain r' where "createHelpRequest users cat u i b now st = Inr (r', st')"
    using assms(1) by (cases "createHelpRequest users cat u i b now st") auto
  then show ?thesis using assms(2) by (rule create_preserves)
next
  case (EditEvent u i b)
  then obtain r' where "updateHelpRequest cat u i b now st = Inr (r', st')"
    using assms(1) by (cases "updateHelpRequest cat u i b now st") auto
  then show ?thesis using assms(2) by (rule update_preserves)
next
  case (ApproveEvent u i)
  then obtain r' where "approveHelpRequest u i now st = Inr (r', st')"
    using assms(1) by (cases "approveHelpRequest u i now st") auto
  then show ?thesis using assms(2) by (rule approve_preserves)
next
  case (CompleteEvent u i)
  then obtain r' where "completeHelpRequest u i now st = Inr (r', st')"
    using assms(1) by (cases "completeHelpRequest u i now st") auto
  then show ?thesis using assms(2) by (rule complete_preserves)
next
  case (DeleteEvent u i)
  then have "deleteHelpRequest u i st = Inr st'" using assms(1) by simp
  then show ?thesis using assms(2) by (rule delete_preserves)
next
  case (AddNoteEvent u i msg)
  then obtain r' where "addNote u i msg now st = Inr (r', st')"
    using assms(1) by (cases "addNote u i msg now st") auto
  then show ?thesis using assms(2) by (rule addNote_preserves)
next
  case (InterestEvent u i)
  then obtain r' where "markInterest u i now st = Inr (r', st')"
    using assms(1) by (cases "markInterest u i now st") auto
  then show ?thesis using assms(2) by (rule markInterest_preserves)
next
  case (RateEvent u i n cmt)
  then obtain r' where "rateHelpRequest u i n cmt now st = Inr (r', st')"
    using assms(1) by (cases "rateHelpRequest u i n cmt now st") auto
  then show ?thesis using assms(2) by (rule rate_preserves)
next
  case (FlagEvent u i why)
  then obtain r' where "flagHelpRequest u i why now st = Inr (r', st')"
    using assms(1) by (cases "flagHelpRequest u i why now st") auto
  then show ?thesis using assms(2) by (rule flag_preserves)
qed

lemma reachable_safeAt: "reachable t st \<Longrightarrow> \<forall>x \<in> set st. safeAt t x"
proof (induction rule: reachable.induct)
  case (initial t)
  show ?case by simp
next
  case (step t st t' users cat ev st')
  have "\<forall>x \<in> set st. safeAt t' x"
    using step.IH step.hyps(2) by (blast intro: safeAt_mono)
  with step.hyps(3) show ?case by (rule perform_preserves)
qed

text \<open>
  Claim C10. In every state reachable through create, edit, approve, complete, delete,
  addNote, markInterested, rate and flag (the clock not running backwards), every stored
  request satisfies the safety condition: an open request has no donor; an approved or
  completed request has a donor and an approval time; a completed request has a
  completion time not before its approval time. Every further successful operation
  leads to a state in which this holds again.
\<close>

theorem state_machine_safety:
  assumes "reachable t st"
  shows "(\<forall>r \<in> set st. stateMachineSafe r) \<and>
         (\<forall>users cat ev t' st'. t \<le> t' \<and> perform users cat ev t' st = Inr st' \<longrightarrow>
            (\<forall>r \<in> set st'. stateMachineSafe r))"
proof -
  have a: "\<forall>r \<in> set st. stateMachineSafe r"
    using reachable_safeAt [OF assms] by (simp add: safeAt_def)
  have b: "\<forall>r \<in> set st'. stateMachineSafe r"
    if "t \<le> t'" and "perform users cat ev t' st = Inr st'" for users cat ev t' st'
  proof -
    have "reachable t' st'" using assms that by (rule reachable.step)
    then have "\<forall>x \<in> set st'. safeAt t' x" by (rule reachable_safeAt)
    then show ?thesis by (simp add: safeAt_def)
  qed
  from a b show ?thesis by blast
qed

lemma example_create:
  "createHelpRequest exampleUsers exampleCatalog 1 1 exampleBody 0 []
     = Inr (exampleRequest, [exampleRequest])"
  by (simp add: createHelpRequest_def validCreateBody_def validItemsBody_def exampleBody_def
                exampleUsers_def exampleCatalog_def findValidItems_def inferCategory_def
                pickCategory_def categoryCounts_def countOf_def saveNew_def Let_def
                exampleRequest_def)

lemma example_approve:
  "approveHelpRequest 2 1 5 [exampleRequest]
     = Inr (approvedRequest\<lparr>updatedAt := 5\<rparr>, [approvedRequest\<lparr>updatedAt := 5\<rparr>])"
  by (simp add: approveHelpRequest_def validateHelpRequestAccess_def approve_def save_def
                Let_def findById_def approvedRequest_def exampleRequest_def)

lemma example_complete:
  "completeHelpRequest 2 1 9 [approvedRequest\<lparr>updatedAt := 5\<rparr>]
     = Inr (completedRequest\<lparr>updatedAt := 9\<rparr>, [completedRequest\<lparr>updatedAt := 9\<rparr>])"
  by (simp add: completeHelpRequest_def validateHelpRequestAccess_def complete_def save_def
                Let_def findById_def completedRequest_def approvedRequest_def
                exampleRequest_def)

lemma example_reachable: "reachable 9 [completedRequest\<lparr>updatedAt := 9\<rparr>]"
proof -
  have 0: "reachable 0 []" by (rule reachable.initial)
  have 1: "reachable 0 [exampleRequest]"
    by (rule reachable.step [OF 0, of 0 exampleUsers exampleCatalog "CreateEvent 1 1 exampleBody"])
       (use example_create in simp_all)
  have 2: "reachable 5 [approvedRequest\<lparr>updatedAt := 5\<rparr>]"
    by (rule reachable.step [OF 1, of 5 exampleUsers exampleCatalog "ApproveEvent 2 1"])
       (use example_approve in simp_all)
  show ?thesis
    by (rule reachable.step [OF 2, of 9 exampleUsers exampleCatalog "CompleteEvent 2 1"])
       (use example_complete in simp_all)
qed

theorem state_machine_safety_witness:
  "reachable 9 [completedRequest\<lparr>updatedAt := 9\<rparr>] \<and>
   status (completedRequest\<lparr>updatedAt := 9\<rparr>) = Completed \<and>
   stateMachineSafe (completedRequest\<lparr>updatedAt := 9\<rparr>)"
  using state_machine_safety [OF example_reachable] example_reachable
  by (simp add: completedRequest_def)

section \<open>Distances: the Haversine formula on a meridian\<close>

lemma pi_ge_three: "3 \<le> pi"
proof -
  have "sin (pi / 6) \<le> pi / 6" by (rule sin_x_le_x) simp
  then show ?thesis by (simp add: sin_30)
qed

lemma toFixed2_mono: "0 \<le> x \<Longrightarrow> x \<le> y \<Longrightarrow> toFixed2 x \<le> toFixed2 y"
  by (simp add: toFixed2_def round_mono divide_right_mono)

lemma toFixed2_zero: "toFixed2 0 = 0"
  by (simp add: toFixed2_def)

lemma centralAngle_same_point: "centralAngle la lo la lo = 0"
  by (simp add: centralAngle_def atan2_def)

lemma calculateDistance_same_point: "calculateDistance la lo la lo = 0"
  by (simp add: calculateDistance_def centralAngle_same_point toFixed2_zero)

lemma centralAngle_same_longitude:
  assumes "\<bar>lat2 - lat1\<bar> < 180"
  shows "centralAngle lat1 lon lat2 lon = \<bar>lat2 - lat1\<bar> * pi / 180"
proof -
  define x where "x = ((lat2 - lat1) * pi) / 180 / 2"
  have ax: "\<bar>x\<bar> = \<bar>lat2 - lat1\<bar> * pi / 360"
    by (simp add: x_def abs_mult)
  have "\<bar>lat2 - lat1\<bar> * pi < 180 * pi" using assms by simp
  then have lt: "\<bar>x\<bar> < pi / 2" unfolding ax by simp
  have cpos: "0 < cos x" using lt by (intro cos_gt_zero_pi) (auto simp: abs_less_iff)
  have s: "sqrt (sin x * sin x) = \<bar>sin x\<bar>" by (rule real_sqrt_abs2)
  have "1 - sin x * sin x = cos x * cos x"
    using sin_cos_squared_add [of x] by (simp add: power2_eq_square)
  then have c: "sqrt (1 - sin x * sin x) = cos x"
    using cpos by (simp add: real_sqrt_abs2)
  have sabs: "\<bar>sin x\<bar> = sin \<bar>x\<bar>"
  proof (cases "0 \<le> x")
    case True
    then have "0 \<le> sin x" using lt by (intro sin_ge_zero) auto
    then show ?thesis using True by simp
  next
    case False
    then have "0 \<le> sin (- x)" using lt by (intro sin_ge_zero) auto
    then show ?thesis using False by simp
  qed
  have a: "sin ((lat2 - lat1) * pi / 180 / 2) * sin ((lat2 - lat1) * pi / 180 / 2) +
           cos (lat1 * pi / 180) * cos (lat2 * pi / 180) * sin ((lon - lon) * pi / 180 / 2) *
           sin ((lon - lon) * pi / 180 / 2) = sin x * sin x"
    by (simp add: x_def)
  have "centralAngle lat1 lon lat2 lon
          = 2 * atan2 (sqrt (sin x * sin x)) (sqrt (1 - sin x * sin x))"
    by (simp only: centralAngle_def Let_def a)
  also have "\<dots> = 2 * atan2 (sin \<bar>x\<bar>) (cos x)" by (simp only: s c sabs)
  also have "\<dots> = 2 * arctan (tan \<bar>x\<bar>)" using cpos by (simp add: atan2_def tan_def)
  also have "\<dots> = 2 * \<bar>x\<bar>" using lt by (simp add: arctan_tan)
  also have "\<dots> = \<bar>lat2 - lat1\<bar> * pi / 180" unfolding ax by simp
  finally show ?thesis .
qed

lemma scenario_angle: "centralAngle 40.05 (- 74) 40 (- 74) = pi / 3600"
proof -
  have "centralAngle 40.05 (- 74) 40 (- 74) = \<bar>40 - 40.05\<bar> * pi / 180"
    by (rule centralAngle_same_longitude) simp
  then show ?thesis by simp
qed

lemma scenario_distance:
  "5 < calculateDistance 40.05 (- 74) 40 (- 74) \<and> calculateDistance 40.05 (- 74) 40 (- 74) \<le> 10"
proof -
  have lo: "5.3 \<le> 6371 * (pi / 3600)" using pi_ge_three by simp
  have hi: "6371 * (pi / 3600) \<le> 7.08" using pi_less_4 by simp
  have l: "toFixed2 5.3 \<le> toFixed2 (6371 * (pi / 3600))" by (rule toFixed2_mono [OF _ lo]) simp
  have h: "toFixed2 (6371 * (pi / 3600)) \<le> toFixed2 7.08"
    by (rule toFixed2_mono [OF _ hi]) simp
  have f: "toFixed2 5.3 = 53 / 10" "toFixed2 7.08 = 708 / 100" by (simp_all add: toFixed2_def)
  have eq: "calculateDistance 40.05 (- 74) 40 (- 74) = toFixed2 (6371 * (pi / 3600))"
    by (simp only: calculateDistance_def scenario_angle)
  have "(5::real) < 53 / 10" "(708::real) / 100 \<le> 10" by simp_all
  then show ?thesis unfolding eq using l h unfolding f by linarith
qed

section \<open>The nearby listing\<close>

lemma set_insertBy: "set (insertBy le x xs) = insert x (set xs)"
  by (induction xs) auto

lemma set_sortBy: "set (sortBy le xs) = set xs"
  by (induction xs) (simp_all add: sortBy_def set_insertBy)

lemma length_insertBy: "length (insertBy le x xs) = Suc (length xs)"
  by (induction xs) auto

lemma length_sortBy: "length (sortBy le xs) = length xs"
  by (induction xs) (simp_all add: sortBy_def length_insertBy)

lemma sortBy_single: "sortBy le [x] = [x]"
  by (simp add: sortBy_def)

lemma sortBy_Nil: "sortBy le [] = []"
  by (simp add: sortBy_def)

lemma getHelpRequests_strict:
  assumes "resolveLocation users caller q = (Some la, Some lo, True)" and "la \<noteq> 0" and "lo \<noteq> 0"
    and "radius q \<noteq> 5" and "radius q \<noteq> 0"
  shows "set (requests (getHelpRequests E users caller q now st)) \<subseteq>
         {x \<in> (\<lambda>r. \<lparr>request = r,
                      distance = Some (calculateDistance la lo (latitude r) (longitude r)),
                      distanceSource =
                        (if truthy (queryLatitude q) \<and> truthy (queryLongitude q)
                         then ''query_parameters'' else ''user_profile'')\<rparr>) ` set st.
            distanceKey x \<le> radius q}"
proof -
  have "set (take n (drop m (sortBy byDistance (filter P (map f (findRequests E fq k j st))))))
          \<subseteq> {x \<in> f ` set st. P x}" for n m P f fq k j
  proof -
    have "set (findRequests E fq k j st) \<subseteq> set st"
      unfolding findRequests_def
      using set_take_subset set_drop_subset by (fastforce simp: set_sortBy dest: in_set_takeD in_set_dropD)
    then show ?thesis
      by (auto simp: set_sortBy dest!: in_set_takeD in_set_dropD intro!: imageI)
  qed
  then show ?thesis
    using assms by (simp add: getHelpRequests_def Let_def truthy_def)
qed

text \<open>
  Claim C1 (as amended). For a listing whose origin was resolved with non-zero latitude
  and longitude: when the requested radius is not 5, every returned item carries the
  rounded Haversine distance from the origin and that distance is at most the radius;
  when the radius is 5, the location filters are skipped and the returned requests are
  exactly those of the store's page for the non-spatial filters, whatever their distance.
\<close>

theorem radius_containment:
  assumes "validListQuery q"
    and "resolveLocation users caller q = (Some la, Some lo, True)" and "la \<noteq> 0" and "lo \<noteq> 0"
  shows "(radius q \<noteq> 5 \<longrightarrow>
            (\<forall>x \<in> set (requests (getHelpRequests E users caller q now st)).
               distance x = Some (calculateDistance la lo (latitude (request x))
                                                          (longitude (request x))) \<and>
               calculateDistance la lo (latitude (request x)) (longitude (request x))
                 \<le> radius q)) \<and>
         (radius q = 5 \<longrightarrow>
            set (map request (requests (getHelpRequests E users caller q now st))) =
            set (findRequests E (baseQuery caller q NoLocation now) (limit q)
                   ((page q - 1) * limit q) st))"
proof -
  have r0: "radius q \<noteq> 0" using assms(1) by (auto simp: validListQuery_def)
  have a: "radius q \<noteq> 5 \<longrightarrow>
            (\<forall>x \<in> set (requests (getHelpRequests E users caller q now st)).
               distance x = Some (calculateDistance la lo (latitude (request x))
                                                          (longitude (request x))) \<and>
               calculateDistance la lo (latitude (request x)) (longitude (request x))
                 \<le> radius q)"
  proof (intro impI ballI)
    fix x
    assume r5: "radius q \<noteq> 5"
      and x: "x \<in> set (requests (getHelpRequests E users caller q now st))"
    from getHelpRequests_strict [OF assms(2-4) r5 r0, of E now st] x
    obtain r where "x = \<lparr>request = r,
                      distance = Some (calculateDistance la lo (latitude r) (longitude r)),
                      distanceSource =
                        (if truthy (queryLatitude q) \<and> truthy (queryLongitude q)
                         then ''query_parameters'' else ''user_profile'')\<rparr>"
      and "distanceKey x \<le> radius q"
      by auto
    then show "distance x = Some (calculateDistance la lo (latitude (request x))
                                                          (longitude (request x))) \<and>
               calculateDistance la lo (latitude (request x)) (longitude (request x))
                 \<le> radius q"
      by (simp add: distanceKey_def)
  qed
  have b: "radius q = 5 \<longrightarrow>
            set (map request (requests (getHelpRequests E users caller q now st))) =
            set (findRequests E (baseQuery caller q NoLocation now) (limit q)
                   ((page q - 1) * limit q) st)"
    using assms(2-4)
    by (simp add: getHelpRequests_def Let_def truthy_def set_sortBy image_image)
  from a b show ?thesis by blast
qed

lemma scenario_location:
  "resolveLocation exampleUsers (Some 2) query10 = (Some 40.05, Some (- 74), True)"
  "resolveLocation exampleUsers (Some 2) query5 = (Some 40.05, Some (- 74), True)"
  by (simp_all add: resolveLocation_def query10_def query5_def truthy_def exampleUsers_def)

lemma scenario_radius10:
  "requests (getHelpRequests exampleEngine exampleUsers (Some 2) query10 10 [exampleRequest])
     = [\<lparr>request = exampleRequest,
         distance = Some (calculateDistance 40.05 (- 74) 40 (- 74)),
         distanceSource = ''user_profile''\<rparr>]"
proof -
  have cap: "centralAngle 40.05 (- 74) 40 (- 74) \<le> 10 / 6371"
    unfolding scenario_angle using pi_less_4 by simp
  have d: "calculateDistance 40.05 (- 74) 40 (- 74) \<le> 10"
    using scenario_distance by simp
  have f: "findRequests exampleEngine
             (baseQuery (Some 2) query10 (GeoWithin (- 74) 40.05 (10 / 6371)) 10) 20 0
             [exampleRequest] = [exampleRequest]"
    using cap
    by (simp add: findRequests_def matches_def baseQuery_def query10_def exampleEngine_def
                  sortBy_def exampleRequest_def)
  show ?thesis
    unfolding getHelpRequests_def Let_def scenario_location
    using f d
    by (simp add: truthy_def query10_def sortBy_def distanceKey_def ceilDiv_def
                  exampleRequest_def)
qed

theorem radius_containment_witness:
  "validListQuery query10 \<and>
   requests (getHelpRequests exampleEngine exampleUsers (Some 2) query10 10 [exampleRequest])
     = [\<lparr>request = exampleRequest,
         distance = Some (calculateDistance 40.05 (- 74) 40 (- 74)),
         distanceSource = ''user_profile''\<rparr>] \<and>
   calculateDistance 40.05 (- 74) 40 (- 74) \<le> radius query10"
proof -
  have v: "validListQuery query10" by (simp add: validListQuery_def query10_def)
  have n: "(40.05::real) \<noteq> 0" "(- 74::real) \<noteq> 0" by simp_all
  have r: "radius query10 \<noteq> 5" by (simp add: query10_def)
  have "calculateDistance 40.05 (- 74) (latitude exampleRequest) (longitude exampleRequest)
          \<le> radius query10"
    using radius_containment [OF v scenario_location(1) n, of exampleEngine 10 "[exampleRequest]"]
          r scenario_radius10
    by simp
  then have "calculateDistance 40.05 (- 74) 40 (- 74) \<le> radius query10"
    by (simp add: exampleRequest_def)
  with v scenario_radius10 show ?thesis by simp
qed

text \<open>
  Claim C1 as stated fails in the spec's own scenario: with radius 5 the request about
  5.56 km away is returned, and its distance exceeds the radius.
\<close>

theorem radius_five_counterexample:
  "requests (getHelpRequests exampleEngine exampleUsers (Some 2) query5 10 [exampleRequest])
     = [\<lparr>request = exampleRequest,
         distance = Some (calculateDistance 40.05 (- 74) 40 (- 74)),
         distanceSource = ''user_profile''\<rparr>] \<and>
   radius query5 < calculateDistance 40.05 (- 74) 40 (- 74)"
proof -
  have f: "findRequests exampleEngine (baseQuery (Some 2) query5 NoLocation 10) 20 0
             [exampleRequest] = [exampleRequest]"
    by (simp add: findRequests_def matches_def baseQuery_def query5_def query10_def
                  sortBy_def exampleRequest_def)
  have "requests (getHelpRequests exampleEngine exampleUsers (Some 2) query5 10 [exampleRequest])
     = [\<lparr>request = exampleRequest,
         distance = Some (calculateDistance 40.05 (- 74) 40 (- 74)),
         distanceSource = ''user_profile''\<rparr>]"
    unfolding getHelpRequests_def Let_def scenario_location
    using f
    by (simp add: truthy_def query5_def query10_def sortBy_def exampleRequest_def)
  moreover have "radius query5 < calculateDistance 40.05 (- 74) 40 (- 74)"
    using scenario_distance by (simp add: query5_def)
  ultimately show ?thesis by simp
qed

lemma paged_location:
  "resolveLocation exampleUsers (Some 2) (pagedQuery n) = (Some 40, Some (- 74), True)"
  by (simp add: resolveLocation_def pagedQuery_def query10_def truthy_def)

lemma getHelpRequests_strict_eq:
  assumes "resolveLocation users caller q = (Some la, Some lo, True)" and "la \<noteq> 0" and "lo \<noteq> 0"
    and "radius q \<noteq> 5" and "radius q \<noteq> 0"
  shows "getHelpRequests E users caller q now st =
     (let ranked = sortBy byDistance
                     (filter (\<lambda>x. distanceKey x \<le> radius q)
                        (map (\<lambda>r. \<lparr>request = r,
                                   distance = Some (calculateDistance la lo (latitude r)
                                                                            (longitude r)),
                                   distanceSource =
                                     (if truthy (queryLatitude q) \<and> truthy (queryLongitude q)
                                      then ''query_parameters'' else ''user_profile'')\<rparr>)
                           (findRequests E
                              (baseQuery caller q (GeoWithin lo la (radius q / 6371)) now)
                              (limit q) ((page q - 1) * limit q) st)));
          actualPage = min (page q)
                           (if ceilDiv (length ranked) (limit q) = 0 then 1
                            else ceilDiv (length ranked) (limit q))
      in \<lparr>requests = take (limit q) (drop ((actualPage - 1) * limit q) ranked),
          pagination = getPaginationInfo actualPage (limit q) (length ranked),
          strictRadiusFilter = True\<rparr>)"
  using assms by (simp add: getHelpRequests_def Let_def truthy_def)

lemma paged_find:
  "findRequests exampleEngine
     (baseQuery (Some 2) (pagedQuery n) (GeoWithin (- 74) 40 (10 / 6371)) 10) 2 k threeRequests
   = take 2 (drop k threeRequests)"
proof -
  have m: "matches exampleEngine
             (baseQuery (Some 2) (pagedQuery n) (GeoWithin (- 74) 40 (10 / 6371)) 10) r"
    if "r \<in> set threeRequests" for r
    using that
    by (auto simp: matches_def baseQuery_def pagedQuery_def query10_def exampleEngine_def
                   threeRequests_def exampleRequest_def centralAngle_same_point)
  then have "filter (matches exampleEngine
             (baseQuery (Some 2) (pagedQuery n) (GeoWithin (- 74) 40 (10 / 6371)) 10))
          threeRequests = threeRequests"
    by (simp add: filter_id_conv)
  moreover have "sortBy storeOrder threeRequests = threeRequests"
    by (simp add: sortBy_def threeRequests_def storeOrder_def exampleRequest_def)
  ultimately show ?thesis by (simp add: findRequests_def)
qed

text \<open>
  Claim C3 at its failing inputs. Three open requests lie at the origin, all within the
  radius of 10, and the page size is 2. For page 1 the reported total is 2, the number of
  items of the store's page that pass the distance filter, not the 3 candidates that
  pass it. For page 3, beyond the last valid page, the store's page is empty, so the
  response has no items, reports page 1 and a total of 0, instead of the items of the
  last valid page.
\<close>

theorem pagination_counts_store_page:
  "length (filter (\<lambda>r. calculateDistance 40 (- 74) (latitude r) (longitude r) \<le> 10)
             threeRequests) = 3 \<and>
   totalItems (pagination
     (getHelpRequests exampleEngine exampleUsers (Some 2) (pagedQuery 1) 10 threeRequests)) = 2 \<and>
   getHelpRequests exampleEngine exampleUsers (Some 2) (pagedQuery 3) 10 threeRequests
     = \<lparr>requests = [],
        pagination = \<lparr>currentPage = 1, totalPages = 0, totalItems = 0, itemsPerPage = 2,
                      hasNext = False, hasPrev = False, nextPage = None, prevPage = None\<rparr>,
        strictRadiusFilter = True\<rparr>"
proof -
  have p: "page (pagedQuery n) = n" "limit (pagedQuery n) = 2" "radius (pagedQuery n) = 10" for n
    by (simp_all add: pagedQuery_def query10_def)
  have n: "(40::real) \<noteq> 0" "(- 74::real) \<noteq> 0" "radius (pagedQuery n) \<noteq> 5"
    "radius (pagedQuery n) \<noteq> 0" for n
    by (simp_all add: p)
  have a: "length (filter (\<lambda>r. calculateDistance 40 (- 74) (latitude r) (longitude r) \<le> 10)
             threeRequests) = 3"
    by (simp add: threeRequests_def exampleRequest_def calculateDistance_same_point)
  have f1: "findRequests exampleEngine
     (baseQuery (Some 2) (pagedQuery 1) (GeoWithin (- 74) 40 (10 / 6371)) 10) 2 ((1 - 1) * 2)
     threeRequests = [exampleRequest, exampleRequest\<lparr>rid := 2\<rparr>]"
    unfolding paged_find by (simp add: threeRequests_def)
  have f3: "findRequests exampleEngine
     (baseQuery (Some 2) (pagedQuery 3) (GeoWithin (- 74) 40 (10 / 6371)) 10) 2 ((3 - 1) * 2)
     threeRequests = []"
    unfolding paged_find by (simp add: threeRequests_def)
  have b: "totalItems (pagination
     (getHelpRequests exampleEngine exampleUsers (Some 2) (pagedQuery 1) 10 threeRequests)) = 2"
    unfolding getHelpRequests_strict_eq [OF paged_location n] Let_def p f1
    by (simp add: length_sortBy getPaginationInfo_def distanceKey_def exampleRequest_def
                  calculateDistance_same_point Let_def)
  have c: "getHelpRequests exampleEngine exampleUsers (Some 2) (pagedQuery 3) 10 threeRequests
     = \<lparr>requests = [],
        pagination = \<lparr>currentPage = 1, totalPages = 0, totalItems = 0, itemsPerPage = 2,
                      hasNext = False, hasPrev = False, nextPage = None, prevPage = None\<rparr>,
        strictRadiusFilter = True\<rparr>"
    unfolding getHelpRequests_strict_eq [OF paged_location n] Let_def p f3
    by (simp add: sortBy_def getPaginationInfo_def ceilDiv_def Let_def)
  from a b c show ?thesis by blast
qed

section \<open>The listing without an origin\<close>

lemma sorted_insertBy:
  assumes total: "\<And>a b. le a b \<or> le b a" and trans: "\<And>a b c. le a b \<Longrightarrow> le b c \<Longrightarrow> le a c"
  shows "sorted_wrt le xs \<Longrightarrow> sorted_wrt le (insertBy le x xs)"
proof (induction xs)
  case Nil
  show ?case by simp
next
  case (Cons y ys)
  show ?case
  proof (cases "le x y")
    case True
    have "\<forall>z \<in> set (y # ys). le x z" using True Cons.prems trans by auto
    then show ?thesis using True Cons.prems by simp
  next
    case False
    then have "le y x" using total by blast
    then have "\<forall>z \<in> set (insertBy le x ys). le y z"
      using Cons.prems by (auto simp: set_insertBy)
    then show ?thesis using False Cons by simp
  qed
qed

lemma storeOrder_total: "storeOrder a b \<or> storeOrder b a"
  by (auto simp: storeOrder_def)

lemma storeOrder_trans: "storeOrder a b \<Longrightarrow> storeOrder b c \<Longrightarrow> storeOrder a c"
  by (auto simp: storeOrder_def)

lemma sorted_sortBy_storeOrder: "sorted_wrt storeOrder (sortBy storeOrder xs)"
proof (induction xs)
  case Nil
  show ?case by (simp add: sortBy_def)
next
  case (Cons x xs)
  have "sorted_wrt storeOrder (insertBy storeOrder x (sortBy storeOrder xs))"
    using storeOrder_total storeOrder_trans Cons by (rule sorted_insertBy)
  then show ?case by (simp add: sortBy_def)
qed

lemma sorted_wrt_take_drop: "sorted_wrt P xs \<Longrightarrow> sorted_wrt P (take n (drop k xs))"
  by (simp add: sorted_wrt_drop sorted_wrt_take)

lemma findRequests_ordered: "sorted_wrt storeOrder (findRequests E fq n k st)"
  unfolding findRequests_def by (intro sorted_wrt_take_drop sorted_sortBy_storeOrder)

lemma findRequests_whole:
  "countDocuments E fq st \<le> n \<Longrightarrow> set (findRequests E fq n 0 st) = {r \<in> set st. matches E fq r}"
  by (simp add: findRequests_def countDocuments_def length_sortBy set_sortBy)






end
